theory Spec2Isabelle
  imports Complex_Main "HOL-Library.Word" "HOL-Library.Sublist"
begin

section \<open>JavaScript strings\<close>

text \<open>
  A JavaScript string is a finite sequence of 16-bit code units. Literals of the
  source are written \<open>js ''...''\<close>.
\<close>

type_synonym code_unit = "16 word"
type_synonym jsstring = "code_unit list"

definition js :: "string \<Rightarrow> jsstring" where
  "js s = map of_char s"

text \<open>
  \<open>String.prototype.trim\<close> removes ECMAScript WhiteSpace and LineTerminator code
  units from both ends: TAB, LF, VT, FF, CR, SP, NBSP, the Unicode space separators
  (U+1680, U+2000..U+200A, U+202F, U+205F, U+3000), LS, PS and U+FEFF.
\<close>

definition isWhiteSpace :: "code_unit \<Rightarrow> bool" where
  "isWhiteSpace c \<longleftrightarrow>
     c \<in> set [0x09, 0x0A, 0x0B, 0x0C, 0x0D, 0x20, 0xA0, 0x1680, 0x2028, 0x2029,
               0x202F, 0x205F, 0x3000, 0xFEFF]
     \<or> (0x2000 \<le> c \<and> c \<le> 0x200A)"

definition trim :: "jsstring \<Rightarrow> jsstring" where
  "trim s = rev (dropWhile isWhiteSpace (rev (dropWhile isWhiteSpace s)))"

text \<open>A string is truthy when it is not empty.\<close>

definition truthy :: "jsstring \<Rightarrow> bool" where
  "truthy s \<longleftrightarrow> s \<noteq> []"

section \<open>Values, errors and the text producer\<close>

text \<open>
  The value of a property is an arbitrary decoded JSON value; a missing property
  reads as \<open>undefined\<close>.
\<close>

datatype jsval = JUndefined | JNull | JBool bool | JNum int | JStr jsstring

text \<open>
  \<open>req.data\<close> is whatever the caller sent. When it is \<open>null\<close> or \<open>undefined\<close>,
  reading \<open>req.data.prompt\<close> throws a \<open>TypeError\<close>; on every other value the read
  gives the value of the \<open>prompt\<close> property (\<open>undefined\<close> when there is none).
\<close>

datatype req_data = Nullish | WithPrompt jsval

record request =
  data :: req_data
  acceptsStreaming :: bool

text \<open>
  A thrown value, as far as the code reads it: its \<open>message\<close> property
  (\<open>None\<close> when undefined) and what \<open>String(error)\<close> gives.
\<close>

datatype js_error = JsError (err_message: "jsstring option") (err_string: jsstring)

text \<open>A value interpolated into a template literal: \<open>undefined\<close> prints as its name.\<close>

definition message_text :: "js_error \<Rightarrow> jsstring" where
  "message_text e = (case err_message e of None \<Rightarrow> js ''undefined'' | Some m \<Rightarrow> m)"

text \<open>
  The text producer (\<open>ai.generate\<close>, \<open>ai.generateStream\<close>) is an external
  collaborator. One streamed generation is a finite sequence of chunk texts, after
  which the iteration either ends or throws, and a response promise that resolves
  to the full text or rejects. The sequence is finite by the producer's contract; a
  failure of \<open>generateStream\<close> before the first chunk is a stream that throws after
  no chunk.
\<close>

record gen_stream =
  chunks :: "jsstring list"
  stream_error :: "js_error option"
  response :: "js_error + jsstring"

record producer =
  generate :: "jsstring \<Rightarrow> js_error + jsstring"
  generateStream :: "jsstring \<Rightarrow> gen_stream"

section \<open>The prompt template\<close>

definition createCorpspeakPrompt :: "jsstring \<Rightarrow> jsstring" where
  "createCorpspeakPrompt userInput =
     js ''\<newline>Transform the following straightforward text into verbose, jargon-filled \"corpspeak.\"\<newline>'' @
     js ''The goal is to make it sound like a high-level executive trying to be overly formal, indirect, and use as many buzzwords as possible.\<newline>'' @
     js ''Think about synergy, leveraging, paradigm shifts, value-add, core competencies, proactive engagement, deliverables, stakeholders, strategic alignment, etc.\<newline>'' @
     js ''Avoid being too nonsensical, but lean heavily into obfuscation and grandiosity.\<newline>'' @
     js ''Output ONLY the corpspeak version.\<newline>'' @
     js ''\<newline>'' @
     js ''Corpspeak transformation must be at least 5 sentences, ideally more, to conveny gravity of the matter.\<newline>'' @
     js ''\<newline>'' @
     js ''\<newline>'' @
     js ''User's straightforward text: \"'' @ userInput @ js ''\"\<newline>'' @
     js ''\<newline>'' @
     js ''Corpspeak Transformation:\<newline>''"

section \<open>The callable handler (functions/src/index.ts)\<close>

text \<open>
  What a handler does to the outside, in order: calls of the producer and chunks
  handed to \<open>sendChunk\<close>. Logger calls are not recorded.
\<close>

datatype effect =
    CallGenerate jsstring
  | CallGenerateStream jsstring
  | SendChunk jsstring

datatype error_code = InvalidArgument | Internal

datatype https_error = HttpsError (code: error_code) (message: jsstring)

text \<open>
  How a call can fail: an \<open>HttpsError\<close> thrown by the handler, the \<open>TypeError\<close> of
  reading a property of \<open>null\<close> or \<open>undefined\<close>, a request refused by a flow's input
  schema, or any other thrown value that nothing catches.
\<close>

datatype failure =
    Https https_error
  | TypeError
  | SchemaViolation
  | Unhandled js_error

text \<open>The object a handler returns: \<open>{ completion }\<close> or \<open>{ corpspeak }\<close>.\<close>

datatype result_obj = Completion jsstring | Corpspeak jsstring

text \<open>The \<open>for await\<close> loop of the streaming branch: one \<open>sendChunk\<close> per chunk.\<close>

fun send_chunks :: "effect list \<Rightarrow> jsstring list \<Rightarrow> effect list" where
  "send_chunks tr [] = tr"
| "send_chunks tr (c # cs) = send_chunks (tr @ [SendChunk c]) cs"

definition generateCorpspeak ::
  "producer \<Rightarrow> request \<Rightarrow> effect list \<times> (failure + result_obj)" where
  "generateCorpspeak ai req =
     (case data req of
        Nullish \<Rightarrow> ([], Inl TypeError)
      | WithPrompt (JStr userInput) \<Rightarrow>
          if \<not> truthy (trim userInput) then
            ([], Inl (Https (HttpsError InvalidArgument
                   (js ''The function must be called with a non-empty \"prompt\" string.''))))
          else
            let fullPrompt = createCorpspeakPrompt userInput in
            if acceptsStreaming req then
              (let g = generateStream ai fullPrompt;
                   tr = send_chunks [CallGenerateStream fullPrompt] (chunks g)
               in case stream_error g of
                    Some e \<Rightarrow>
                      (tr, Inl (Https (HttpsError Internal
                             (js ''Streaming generation failed: '' @ message_text e))))
                  | None \<Rightarrow>
                      (case response g of
                         Inl e \<Rightarrow>
                           (tr, Inl (Https (HttpsError Internal
                                  (js ''Streaming generation failed: '' @ message_text e))))
                       | Inr text \<Rightarrow> (tr, Inr (Completion text))))
            else
              (case generate ai fullPrompt of
                 Inl e \<Rightarrow>
                   ([CallGenerate fullPrompt],
                    Inl (Https (HttpsError Internal
                      (js ''Non-streaming generation failed: '' @ message_text e))))
               | Inr text \<Rightarrow> ([CallGenerate fullPrompt], Inr (Completion text)))
      | WithPrompt _ \<Rightarrow>
          ([], Inl (Https (HttpsError InvalidArgument
                 (js ''The function must be called with a non-empty \"prompt\" string.'')))))"

section \<open>The Genkit flow (second server variant)\<close>

text \<open>
  The input schema \<open>z.object({ prompt: z.string().min(1) })\<close>, applied to the
  request data.
\<close>

definition inputSchema :: "req_data \<Rightarrow> bool" where
  "inputSchema d = (case d of WithPrompt (JStr s) \<Rightarrow> 1 \<le> length s | _ \<Rightarrow> False)"

text \<open>\<open>chunk.text.replace(/\n/g, " ").trim()\<close>\<close>

definition clean_chunk :: "jsstring \<Rightarrow> jsstring" where
  "clean_chunk text = trim (map (\<lambda>c. if c = 0x0A then 0x20 else c) text)"

text \<open>
  The loop over the producer's stream; \<open>sendChunk\<close> says whether the flow was given
  a chunk callback.
\<close>

fun flow_chunks :: "bool \<Rightarrow> effect list \<Rightarrow> jsstring list \<Rightarrow> effect list" where
  "flow_chunks sendChunk tr [] = tr"
| "flow_chunks sendChunk tr (c # cs) =
     (let textChunk = clean_chunk c in
      if truthy textChunk then
        (if sendChunk then flow_chunks sendChunk (tr @ [SendChunk textChunk]) cs
         else flow_chunks sendChunk tr cs)
      else flow_chunks sendChunk tr cs)"

text \<open>The flow body has no \<open>try\<close>: a producer failure leaves it as the thrown value.\<close>

definition corpspeakGeneratorFlow ::
  "producer \<Rightarrow> bool \<Rightarrow> jsstring \<Rightarrow> effect list \<times> (js_error + result_obj)" where
  "corpspeakGeneratorFlow ai sendChunk userInput =
     (let fullPrompt = createCorpspeakPrompt userInput;
          g = generateStream ai fullPrompt;
          tr = flow_chunks sendChunk [CallGenerateStream fullPrompt] (chunks g)
      in case stream_error g of
           Some e \<Rightarrow> (tr, Inl e)
         | None \<Rightarrow>
             (case response g of
                Inl e \<Rightarrow> (tr, Inl e)
              | Inr text \<Rightarrow> (tr, Inr (Corpspeak text))))"

section \<open>Events on the transport\<close>

text \<open>
  The callable framework (\<open>onCall\<close>, \<open>onCallGenkit\<close>) is outside the repository. Its
  contract: every chunk handed to \<open>sendChunk\<close> of a streaming call becomes one
  fragment event, in order; the handler's return value becomes the result event
  and a thrown value the error event. A request that the flow's input schema
  refuses never reaches the flow body. The wire code the framework derives for a
  failure that is not an \<open>HttpsError\<close> is not in the source; such a failure is
  recorded as what it is.
\<close>

datatype event = Fragment jsstring | Result result_obj | Error failure

fun sent_chunks :: "effect list \<Rightarrow> jsstring list" where
  "sent_chunks [] = []"
| "sent_chunks (SendChunk c # es) = c # sent_chunks es"
| "sent_chunks (_ # es) = sent_chunks es"

fun producer_calls :: "effect list \<Rightarrow> effect list" where
  "producer_calls [] = []"
| "producer_calls (SendChunk c # es) = producer_calls es"
| "producer_calls (e # es) = e # producer_calls es"

definition onCall_events :: "producer \<Rightarrow> request \<Rightarrow> event list" where
  "onCall_events ai req =
     (let r = generateCorpspeak ai req in
      (if acceptsStreaming req then map Fragment (sent_chunks (fst r)) else []) @
      [case snd r of Inl f \<Rightarrow> Error f | Inr v \<Rightarrow> Result v])"

definition onCallGenkit_events :: "producer \<Rightarrow> request \<Rightarrow> event list" where
  "onCallGenkit_events ai req =
     (if \<not> inputSchema (data req) then [Error SchemaViolation]
      else case data req of
        WithPrompt (JStr userInput) \<Rightarrow>
          (let r = corpspeakGeneratorFlow ai (acceptsStreaming req) userInput in
           (if acceptsStreaming req then map Fragment (sent_chunks (fst r)) else []) @
           [case snd r of Inl e \<Rightarrow> Error (Unhandled e) | Inr v \<Rightarrow> Result v])
      | _ \<Rightarrow> [Error SchemaViolation])"

text \<open>Whether the producer is called at all while a request is served.\<close>

definition onCallGenkit_calls :: "producer \<Rightarrow> request \<Rightarrow> effect list" where
  "onCallGenkit_calls ai req =
     (if \<not> inputSchema (data req) then []
      else case data req of
        WithPrompt (JStr userInput) \<Rightarrow>
          producer_calls (fst (corpspeakGeneratorFlow ai (acceptsStreaming req) userInput))
      | _ \<Rightarrow> [])"

fun is_fragment :: "event \<Rightarrow> bool" where
  "is_fragment (Fragment _) = True"
| "is_fragment _ = False"

fun is_result :: "event \<Rightarrow> bool" where
  "is_result (Result _) = True"
| "is_result _ = False"

fun is_error :: "event \<Rightarrow> bool" where
  "is_error (Error _) = True"
| "is_error _ = False"

definition is_terminal :: "event \<Rightarrow> bool" where
  "is_terminal ev \<longleftrightarrow> is_result ev \<or> is_error ev"

text \<open>
  The client adapter's two views of one exchange (the SDK's \<open>stream\<close> and \<open>data\<close>),
  over a transport that delivers the records in the order emitted.
\<close>

definition fragments_view :: "event list \<Rightarrow> jsstring list" where
  "fragments_view evs = concat (map (\<lambda>ev. case ev of Fragment p \<Rightarrow> [p] | _ \<Rightarrow> []) evs)"

definition final_view :: "event list \<Rightarrow> event list" where
  "final_view evs = filter is_terminal evs"

section \<open>The web client\<close>

text \<open>
  The page has two columns, each with an output element and a timer element, and
  three buttons that \<open>setLoading\<close> disables and enables together. What the client
  does to the page, the console and the network is recorded in order.
\<close>

datatype column = NonStreaming | Streaming

datatype timer_status = Running | Stopped | Reset

text \<open>
  The text of a timer element: \<open>TTFB: d ms\<close> (with \<open>d\<close> the measured duration,
  before \<open>toFixed(1)\<close> prints it), \<open>TTFB: Measuring...\<close> or \<open>TTFB: --- ms\<close>.
\<close>

datatype timer_text = TimerValue real | TimerMeasuring | TimerBlank

datatype ui_effect =
    SetLoading bool
  | SetOutput column jsstring
  | SetTimer column timer_text
  | ConsoleError column js_error
  | Invoke jsstring
  | InvokeStream jsstring

text \<open>
  The four module variables, the two locals of the streaming call in flight
  (\<open>streamedContent\<close>, \<open>firstChunkReceived\<close>) and the effects so far.
\<close>

record client =
  nonStreamingStartTime :: "real option"
  streamingStartTime :: "real option"
  nonStreamingOpInProgress :: bool
  streamingOpInProgress :: bool
  streamedContent :: jsstring
  firstChunkReceived :: bool
  effects :: "ui_effect list"

definition emit :: "ui_effect \<Rightarrow> client \<Rightarrow> client" where
  "emit e s = s\<lparr>effects := effects s @ [e]\<rparr>"

definition setLoading :: "bool \<Rightarrow> client \<Rightarrow> client" where
  "setLoading isLoading s = emit (SetLoading isLoading) s"

text \<open>\<open>now\<close> is what \<open>performance.now()\<close> returns when the function runs.\<close>

definition updateTimerDisplay ::
  "real \<Rightarrow> column \<Rightarrow> real option \<Rightarrow> timer_status \<Rightarrow> client \<Rightarrow> client" where
  "updateTimerDisplay now timerDiv startTimeValue status s =
     (case (status, startTimeValue) of
        (Stopped, Some start) \<Rightarrow> emit (SetTimer timerDiv (TimerValue (now - start))) s
      | (Running, _) \<Rightarrow> emit (SetTimer timerDiv TimerMeasuring) s
      | _ \<Rightarrow> emit (SetTimer timerDiv TimerBlank) s)"

text \<open>\<open>error.message || String(error)\<close>\<close>

definition error_text :: "js_error \<Rightarrow> jsstring" where
  "error_text e =
     (case err_message e of
        Some m \<Rightarrow> if truthy m then m else err_string e
      | None \<Rightarrow> err_string e)"

subsection \<open>handleNonStreamingRequest\<close>

text \<open>
  An async function runs in segments, each one atomic: up to the first \<open>await\<close>,
  then from each resumption to the next \<open>await\<close> or to the end.
\<close>

definition ns_start :: "real \<Rightarrow> jsstring \<Rightarrow> client \<Rightarrow> client" where
  "ns_start now promptText s =
     (if \<not> truthy (trim promptText) then
        (if \<not> streamingOpInProgress s then setLoading False s else s)
      else
        let s1 = s\<lparr>nonStreamingOpInProgress := True\<rparr>;
            s2 = emit (SetOutput NonStreaming (js ''Leveraging core competencies...'')) s1;
            s3 = updateTimerDisplay now NonStreaming None Reset s2;
            s4 = s3\<lparr>nonStreamingStartTime := Some now\<rparr>;
            s5 = updateTimerDisplay now NonStreaming (nonStreamingStartTime s4) Running s4
        in emit (Invoke promptText) s5)"

text \<open>The call settles: the \<open>try\<close> or the \<open>catch\<close> branch, then \<open>finally\<close>.\<close>

definition ns_settle :: "real \<Rightarrow> js_error + jsstring \<Rightarrow> client \<Rightarrow> client" where
  "ns_settle now outcome s =
     (let s1 = (if nonStreamingOpInProgress s
                then updateTimerDisplay now NonStreaming (nonStreamingStartTime s) Stopped s
                else s);
          s2 = (case outcome of
                  Inr completion \<Rightarrow> emit (SetOutput NonStreaming completion) s1
                | Inl error \<Rightarrow>
                    emit (SetOutput NonStreaming (js ''Error: '' @ error_text error))
                      (emit (ConsoleError NonStreaming error) s1));
          s3 = s2\<lparr>nonStreamingOpInProgress := False\<rparr>
      in if \<not> streamingOpInProgress s3 then setLoading False s3 else s3)"

definition handleNonStreamingRequest ::
  "real \<Rightarrow> jsstring \<Rightarrow> real \<times> (js_error + jsstring) \<Rightarrow> client \<Rightarrow> client" where
  "handleNonStreamingRequest t0 promptText call s =
     (if \<not> truthy (trim promptText) then ns_start t0 promptText s
      else ns_settle (fst call) (snd call) (ns_start t0 promptText s))"

subsection \<open>handleStreamingRequest\<close>

definition s_start :: "real \<Rightarrow> jsstring \<Rightarrow> client \<Rightarrow> client" where
  "s_start now promptText s =
     (if \<not> truthy (trim promptText) then
        (if \<not> nonStreamingOpInProgress s then setLoading False s else s)
      else
        let s1 = s\<lparr>streamingOpInProgress := True\<rparr>;
            s2 = emit (SetOutput Streaming (js ''Initiating proactive synergy stream...'')) s1;
            s3 = updateTimerDisplay now Streaming None Reset s2;
            s4 = s3\<lparr>streamedContent := [], streamingStartTime := Some now\<rparr>;
            s5 = updateTimerDisplay now Streaming (streamingStartTime s4) Running s4;
            s6 = s5\<lparr>firstChunkReceived := False\<rparr>
        in emit (InvokeStream promptText) s6)"

text \<open>\<open>generateCorpspeak.stream\<close> has resolved.\<close>

definition s_opened :: "client \<Rightarrow> client" where
  "s_opened s =
     (let s1 = s\<lparr>streamedContent := []\<rparr>
      in emit (SetOutput Streaming (streamedContent s1)) s1)"

text \<open>One iteration of the \<open>for await\<close> loop, on a chunk with the given \<open>partial\<close>.\<close>

definition s_chunk :: "real \<Rightarrow> jsstring \<Rightarrow> client \<Rightarrow> client" where
  "s_chunk now partial s =
     (let s1 = (if \<not> firstChunkReceived s \<and> truthy partial
                then (updateTimerDisplay now Streaming (streamingStartTime s) Stopped s)
                       \<lparr>firstChunkReceived := True\<rparr>
                else s);
          s2 = (if truthy partial
                then s1\<lparr>streamedContent := streamedContent s1 @ partial\<rparr>
                else s1)
      in emit (SetOutput Streaming (trim (streamedContent s2))) s2)"

text \<open>The loop has ended normally.\<close>

definition s_end :: "real \<Rightarrow> client \<Rightarrow> client" where
  "s_end now s =
     (if \<not> firstChunkReceived s \<and> streamingOpInProgress s
      then updateTimerDisplay now Streaming (streamingStartTime s) Stopped s
      else s)"

definition s_finally :: "client \<Rightarrow> client" where
  "s_finally s =
     (let s1 = s\<lparr>streamingOpInProgress := False\<rparr>
      in if \<not> nonStreamingOpInProgress s1 then setLoading False s1 else s1)"

text \<open>\<open>dataPromise\<close> has resolved.\<close>

definition s_data :: "jsstring \<Rightarrow> client \<Rightarrow> client" where
  "s_data completion s =
     s_finally
       (emit (SetOutput Streaming
                (trim (streamedContent s) @ js ''\<newline>(Final object: '' @ completion @ js '')''))
          s)"

text \<open>The \<open>catch\<close> block, entered from any point of the \<open>try\<close>.\<close>

definition s_catch :: "real \<Rightarrow> js_error \<Rightarrow> client \<Rightarrow> client" where
  "s_catch now error s =
     (let s1 = (if \<not> firstChunkReceived s \<and> streamingOpInProgress s
                then updateTimerDisplay now Streaming (streamingStartTime s) Stopped s
                else s);
          s2 = emit (ConsoleError Streaming error) s1
      in s_finally (emit (SetOutput Streaming (js ''Error: '' @ error_text error)) s2))"

fun s_chunks :: "(real \<times> jsstring) list \<Rightarrow> client \<Rightarrow> client" where
  "s_chunks [] s = s"
| "s_chunks ((t, partial) # cs) s = s_chunks cs (s_chunk t partial s)"

text \<open>
  What one streaming call does, with the clock reading at each resumption: the
  call is refused, or it opens, delivers chunks and then either throws or ends,
  after which the data promise settles.
\<close>

datatype stream_ending =
    Throws real js_error
  | Ends real real "js_error + jsstring"

datatype stream_call =
    OpenFails real js_error
  | Opens "(real \<times> jsstring) list" stream_ending

definition handleStreamingRequest ::
  "real \<Rightarrow> jsstring \<Rightarrow> stream_call \<Rightarrow> client \<Rightarrow> client" where
  "handleStreamingRequest t0 promptText call s =
     (if \<not> truthy (trim promptText) then s_start t0 promptText s
      else case call of
        OpenFails t e \<Rightarrow> s_catch t e (s_start t0 promptText s)
      | Opens cs ending \<Rightarrow>
          (let s1 = s_chunks cs (s_opened (s_start t0 promptText s))
           in case ending of
                Throws t e \<Rightarrow> s_catch t e s1
              | Ends t td outcome \<Rightarrow>
                  (case outcome of
                     Inr completion \<Rightarrow> s_data completion (s_end t s1)
                   | Inl e \<Rightarrow> s_catch td e (s_end t s1))))"

subsection \<open>Two calls in flight\<close>

text \<open>
  JavaScript runs one segment at a time; two calls in flight are an interleaving
  of their segments.
\<close>

datatype client_event =
    NsStart real jsstring
  | NsSettle real "js_error + jsstring"
  | SStart real jsstring
  | SOpened
  | SChunk real jsstring
  | SEnd real
  | SData jsstring
  | SFail real js_error

fun step :: "client_event \<Rightarrow> client \<Rightarrow> client" where
  "step (NsStart t p) s = ns_start t p s"
| "step (NsSettle t r) s = ns_settle t r s"
| "step (SStart t p) s = s_start t p s"
| "step SOpened s = s_opened s"
| "step (SChunk t p) s = s_chunk t p s"
| "step (SEnd t) s = s_end t s"
| "step (SData c) s = s_data c s"
| "step (SFail t e) s = s_catch t e s"

definition run :: "client_event list \<Rightarrow> client \<Rightarrow> client" where
  "run evs s = fold step evs s"

fun is_ns_event :: "client_event \<Rightarrow> bool" where
  "is_ns_event (NsStart _ _) = True"
| "is_ns_event (NsSettle _ _) = True"
| "is_ns_event _ = False"

fun ns_effect :: "ui_effect \<Rightarrow> bool" where
  "ns_effect (SetOutput NonStreaming _) = True"
| "ns_effect (SetTimer NonStreaming _) = True"
| "ns_effect (ConsoleError NonStreaming _) = True"
| "ns_effect (Invoke _) = True"
| "ns_effect _ = False"

fun s_effect :: "ui_effect \<Rightarrow> bool" where
  "s_effect (SetOutput Streaming _) = True"
| "s_effect (SetTimer Streaming _) = True"
| "s_effect (ConsoleError Streaming _) = True"
| "s_effect (InvokeStream _) = True"
| "s_effect _ = False"

text \<open>What belongs to each call: its start time, its flag, its content, its displays.\<close>

definition ns_view :: "client \<Rightarrow> real option \<times> bool \<times> ui_effect list" where
  "ns_view s =
     (nonStreamingStartTime s, nonStreamingOpInProgress s, filter ns_effect (effects s))"

definition s_view ::
  "client \<Rightarrow> real option \<times> bool \<times> jsstring \<times> bool \<times> ui_effect list" where
  "s_view s =
     (streamingStartTime s, streamingOpInProgress s, streamedContent s,
      firstChunkReceived s, filter s_effect (effects s))"

fun loading_writes :: "ui_effect list \<Rightarrow> bool list" where
  "loading_writes [] = []"
| "loading_writes (SetLoading b # es) = b # loading_writes es"
| "loading_writes (_ # es) = loading_writes es"

text \<open>The durations written to the streaming timer, in order.\<close>

fun ttfb_marks :: "ui_effect list \<Rightarrow> real list" where
  "ttfb_marks [] = []"
| "ttfb_marks (SetTimer Streaming (TimerValue d) # es) = d # ttfb_marks es"
| "ttfb_marks (_ # es) = ttfb_marks es"

text \<open>The clock readings of one streaming call, in the order they are taken.\<close>

fun ending_times :: "stream_ending \<Rightarrow> real list" where
  "ending_times (Throws t e) = [t]"
| "ending_times (Ends t td outcome) = [t, td]"

fun call_times :: "stream_call \<Rightarrow> real list" where
  "call_times (OpenFails t e) = [t]"
| "call_times (Opens cs ending) = map fst cs @ ending_times ending"

text \<open>The page as loaded: nothing in flight, nothing written yet.\<close>

definition initial :: client where
  "initial =
     \<lparr>nonStreamingStartTime = None, streamingStartTime = None,
      nonStreamingOpInProgress = False, streamingOpInProgress = False,
      streamedContent = [], firstChunkReceived = False, effects = []\<rparr>"

text \<open>The texts carried by the result events of an exchange.\<close>

fun completion_texts :: "event list \<Rightarrow> jsstring list" where
  "completion_texts [] = []"
| "completion_texts (Result (Completion t) # evs) = t # completion_texts evs"
| "completion_texts (Result (Corpspeak t) # evs) = t # completion_texts evs"
| "completion_texts (_ # evs) = completion_texts evs"

section \<open>Notions of the specification\<close>

text \<open>
  A prompt that is missing, not a string, or a string of whitespace only (the
  empty string included).
\<close>

definition invalid_prompt :: "jsval \<Rightarrow> bool" where
  "invalid_prompt v = (case v of JStr u \<Rightarrow> list_all isWhiteSpace u | _ \<Rightarrow> True)"

text \<open>The producer fails: the stream throws, or the response promise rejects.\<close>

definition stream_fails :: "gen_stream \<Rightarrow> bool" where
  "stream_fails g \<longleftrightarrow> stream_error g \<noteq> None \<or> isl (response g)"

definition producer_fails :: "producer \<Rightarrow> bool \<Rightarrow> jsstring \<Rightarrow> bool" where
  "producer_fails ai streaming p \<longleftrightarrow>
     (if streaming then stream_fails (generateStream ai p) else isl (generate ai p))"

section \<open>Sample producers and requests\<close>

definition full_sentence :: jsstring where
  "full_sentence =
     js ''Per our strategic review, the infrastructure requires urgent remediation.''"

text \<open>Three fragments, then the full sentence; both entry points agree on it.\<close>

definition review_ai :: producer where
  "review_ai =
     \<lparr>generate = (\<lambda>p. Inr full_sentence),
      generateStream = (\<lambda>p.
        \<lparr>chunks = [js ''Per '', js ''our '', js ''strategic review, ''],
         stream_error = None,
         response = Inr full_sentence\<rparr>)\<rparr>"

definition quota_error :: js_error where
  "quota_error = JsError (Some (js ''quota exceeded'')) (js ''Error: quota exceeded'')"

text \<open>Two fragments, then the stream throws.\<close>

definition failing_ai :: producer where
  "failing_ai =
     \<lparr>generate = (\<lambda>p. Inl quota_error),
      generateStream = (\<lambda>p.
        \<lparr>chunks = [js ''Per '', js ''our ''],
         stream_error = Some quota_error,
         response = Inl quota_error\<rparr>)\<rparr>"

text \<open>A fragment of one space and a fragment of one line feed between two words.\<close>

definition spaced_ai :: producer where
  "spaced_ai =
     \<lparr>generate = (\<lambda>p. Inr (js ''Synergy now'')),
      generateStream = (\<lambda>p.
        \<lparr>chunks = [js ''Synergy'', js '' '', js ''\<newline>'', js ''now''],
         stream_error = None,
         response = Inr (js ''Synergy now'')\<rparr>)\<rparr>"

definition server_down :: "bool \<Rightarrow> request" where
  "server_down streaming =
     \<lparr>data = WithPrompt (JStr (js ''The server is down.'')), acceptsStreaming = streaming\<rparr>"

definition blank_request :: "bool \<Rightarrow> request" where
  "blank_request streaming =
     \<lparr>data = WithPrompt (JStr (js ''   '')), acceptsStreaming = streaming\<rparr>"

text \<open>A call without data, and a call with an object that has no prompt.\<close>

definition null_request :: "bool \<Rightarrow> request" where
  "null_request streaming = \<lparr>data = Nullish, acceptsStreaming = streaming\<rparr>"

definition empty_object_request :: "bool \<Rightarrow> request" where
  "empty_object_request streaming =
     \<lparr>data = WithPrompt JUndefined, acceptsStreaming = streaming\<rparr>"

section \<open>Strings and traces: basic facts\<close>

lemma send_chunks_eq: "send_chunks tr cs = tr @ map SendChunk cs"
  by (induction cs arbitrary: tr) simp_all

lemma sent_chunks_append: "sent_chunks (xs @ ys) = sent_chunks xs @ sent_chunks ys"
  by (induction xs rule: sent_chunks.induct) simp_all

lemma sent_chunks_map: "sent_chunks (map SendChunk cs) = cs"
  by (induction cs) simp_all

lemma producer_calls_append:
  "producer_calls (xs @ ys) = producer_calls xs @ producer_calls ys"
  by (induction xs rule: producer_calls.induct) simp_all

lemma producer_calls_map: "producer_calls (map SendChunk cs) = []"
  by (induction cs) simp_all

lemma flow_chunks_eq:
  "flow_chunks sc tr cs =
     tr @ (if sc then map SendChunk (filter truthy (map clean_chunk cs)) else [])"
proof (cases sc)
  case True
  then show ?thesis by (induction cs arbitrary: tr) (simp_all add: Let_def)
next
  case False
  then show ?thesis by (induction cs arbitrary: tr) (simp_all add: Let_def)
qed

lemma filter_terminal_fragments: "filter is_terminal (map Fragment fs) = []"
  by (induction fs) (simp_all add: is_terminal_def)

lemma filter_result_fragments: "filter is_result (map Fragment fs) = []"
  by (induction fs) simp_all

lemma filter_error_fragments: "filter is_error (map Fragment fs) = []"
  by (induction fs) simp_all

lemma fragments_view_fragments: "fragments_view (map Fragment fs @ [t]) = fs" if "is_terminal t"
  using that by (induction fs) (auto simp: fragments_view_def is_terminal_def split: event.splits)

text \<open>Shape of the event list of the callable handler.\<close>

lemma onCall_events_shape:
  "\<exists>fs t. onCall_events ai req = map Fragment fs @ [t] \<and> is_terminal t"
proof (cases "snd (generateCorpspeak ai req)")
  case (Inl e)
  then show ?thesis
    by (auto simp: onCall_events_def is_terminal_def Let_def intro: exI[of _ "[]"])
next
  case (Inr v)
  then show ?thesis
    by (auto simp: onCall_events_def is_terminal_def Let_def intro: exI[of _ "[]"])
qed

lemma onCallGenkit_events_shape:
  "\<exists>fs t. onCallGenkit_events ai req = map Fragment fs @ [t] \<and> is_terminal t"
proof (cases "inputSchema (data req)")
  case False
  then have "onCallGenkit_events ai req = map Fragment [] @ [Error SchemaViolation]"
    by (simp add: onCallGenkit_events_def)
  then show ?thesis by (metis is_terminal_def is_error.simps(1))
next
  case True
  then obtain u where u: "data req = WithPrompt (JStr u)"
    by (auto simp: inputSchema_def split: req_data.splits jsval.splits)
  show ?thesis using True u
    by (auto simp: onCallGenkit_events_def is_terminal_def Let_def split: sum.splits)
qed

lemma dropWhile_all: "(\<forall>x\<in>set (dropWhile P s). P x) \<longleftrightarrow> (\<forall>x\<in>set s. P x)"
  by (induction s) auto

lemma trim_empty_iff: "trim s = [] \<longleftrightarrow> list_all isWhiteSpace s"
  by (simp add: trim_def list_all_iff dropWhile_all)

lemma set_trim: "set (trim s) \<subseteq> set s"
proof
  fix x assume "x \<in> set (trim s)"
  then have "x \<in> set (dropWhile isWhiteSpace (rev (dropWhile isWhiteSpace s)))"
    by (simp add: trim_def)
  then have "x \<in> set (rev (dropWhile isWhiteSpace s))"
    by (rule set_dropWhileD)
  then have "x \<in> set (dropWhile isWhiteSpace s)" by simp
  then show "x \<in> set s" by (rule set_dropWhileD)
qed

lemma invalid_prompt_rejected:
  "data req = WithPrompt v \<Longrightarrow> invalid_prompt v \<Longrightarrow>
     generateCorpspeak ai req =
       ([], Inl (Https (HttpsError InvalidArgument
          (js ''The function must be called with a non-empty \"prompt\" string.''))))"
  by (auto simp: invalid_prompt_def generateCorpspeak_def truthy_def trim_empty_iff
           split: jsval.splits)

lemma valid_prompt_iff:
  "\<not> invalid_prompt v \<longleftrightarrow> (\<exists>u. v = JStr u \<and> truthy (trim u))"
  by (auto simp: invalid_prompt_def truthy_def trim_empty_iff split: jsval.splits)


lemma onCall_events_streaming:
  assumes "data req = WithPrompt (JStr u)" "truthy (trim u)" "acceptsStreaming req"
  shows "onCall_events ai req =
     map Fragment (chunks (generateStream ai (createCorpspeakPrompt u))) @
     [case stream_error (generateStream ai (createCorpspeakPrompt u)) of
        Some e \<Rightarrow> Error (Https (HttpsError Internal
                    (js ''Streaming generation failed: '' @ message_text e)))
      | None \<Rightarrow>
          (case response (generateStream ai (createCorpspeakPrompt u)) of
             Inl e \<Rightarrow> Error (Https (HttpsError Internal
                    (js ''Streaming generation failed: '' @ message_text e)))
           | Inr text \<Rightarrow> Result (Completion text))]"
  using assms
  by (simp add: onCall_events_def generateCorpspeak_def Let_def send_chunks_eq
        sent_chunks_append sent_chunks_map split: option.splits sum.splits)

lemma onCall_events_plain:
  assumes "data req = WithPrompt (JStr u)" "truthy (trim u)" "\<not> acceptsStreaming req"
  shows "onCall_events ai req =
     [case generate ai (createCorpspeakPrompt u) of
        Inl e \<Rightarrow> Error (Https (HttpsError Internal
                    (js ''Non-streaming generation failed: '' @ message_text e)))
      | Inr text \<Rightarrow> Result (Completion text)]"
  using assms
  by (simp add: onCall_events_def generateCorpspeak_def Let_def split: sum.splits)

lemma onCallGenkit_events_valid:
  assumes "data req = WithPrompt (JStr u)" "u \<noteq> []"
  shows "onCallGenkit_events ai req =
     (if acceptsStreaming req
      then map Fragment (filter truthy (map clean_chunk
             (chunks (generateStream ai (createCorpspeakPrompt u)))))
      else []) @
     [case stream_error (generateStream ai (createCorpspeakPrompt u)) of
        Some e \<Rightarrow> Error (Unhandled e)
      | None \<Rightarrow>
          (case response (generateStream ai (createCorpspeakPrompt u)) of
             Inl e \<Rightarrow> Error (Unhandled e)
           | Inr text \<Rightarrow> Result (Corpspeak text))]"
  using assms
  by (simp add: onCallGenkit_events_def inputSchema_def corpspeakGeneratorFlow_def Let_def
        flow_chunks_eq sent_chunks_append sent_chunks_map Suc_le_eq
        split: option.splits sum.splits)

section \<open>Terminal events\<close>

lemma one_terminal_shape:
  assumes "evs = map Fragment fs @ [t]" "is_terminal t"
  shows "length (filter is_terminal evs) = 1 \<and> is_terminal (last evs) \<and>
         list_all is_fragment (butlast evs)"
  using assms by (simp add: filter_terminal_fragments list_all_iff)

lemma failing_shape:
  assumes "evs = map Fragment fs @ [Error f]"
  shows "length (filter is_error evs) = 1 \<and> filter is_result evs = [] \<and>
         fragments_view evs = fs"
  using assms
  by (simp add: filter_error_fragments filter_result_fragments
        fragments_view_fragments is_terminal_def)

lemma onCall_failure:
  assumes u: "data req = WithPrompt (JStr u)" "truthy (trim u)"
    and f: "producer_fails ai (acceptsStreaming req) (createCorpspeakPrompt u)"
  shows "\<exists>f. onCall_events ai req =
           map Fragment (if acceptsStreaming req
                         then chunks (generateStream ai (createCorpspeakPrompt u)) else [])
           @ [Error f]"
proof (cases "acceptsStreaming req")
  case True
  with f have "stream_fails (generateStream ai (createCorpspeakPrompt u))"
    by (simp add: producer_fails_def)
  then show ?thesis
    using True onCall_events_streaming[OF u True, of ai]
    by (auto simp: stream_fails_def isl_def split: option.splits)
next
  case False
  with f have "isl (generate ai (createCorpspeakPrompt u))"
    by (simp add: producer_fails_def)
  then show ?thesis
    using False onCall_events_plain[OF u False, of ai]
    by (auto simp: isl_def)
qed

lemma onCallGenkit_failure:
  assumes u: "data req = WithPrompt (JStr u)" "u \<noteq> []"
    and f: "stream_fails (generateStream ai (createCorpspeakPrompt u))"
  shows "\<exists>fs f. onCallGenkit_events ai req = map Fragment fs @ [Error f]"
  using f onCallGenkit_events_valid[OF u, of ai]
  by (auto simp: stream_fails_def isl_def split: option.splits)

text \<open>
  C1. Every call, incremental or not, on either server variant, ends in exactly one
  terminal event (a result or an error), which comes last, after fragment events
  only. When the producer fails, before or after fragments were emitted, that one
  terminal event is an error event, there is no result event, and the fragments
  already emitted are exactly the producer's.
\<close>

theorem exactly_one_terminal_event:
  "length (filter is_terminal (onCall_events ai req)) = 1 \<and>
   is_terminal (last (onCall_events ai req)) \<and>
   list_all is_fragment (butlast (onCall_events ai req)) \<and>
   length (filter is_terminal (onCallGenkit_events ai req)) = 1 \<and>
   is_terminal (last (onCallGenkit_events ai req)) \<and>
   list_all is_fragment (butlast (onCallGenkit_events ai req)) \<and>
   (\<forall>u. data req = WithPrompt (JStr u) \<and> truthy (trim u) \<and>
        producer_fails ai (acceptsStreaming req) (createCorpspeakPrompt u) \<longrightarrow>
          length (filter is_error (onCall_events ai req)) = 1 \<and>
          filter is_result (onCall_events ai req) = [] \<and>
          (acceptsStreaming req \<longrightarrow>
             fragments_view (onCall_events ai req) =
               chunks (generateStream ai (createCorpspeakPrompt u)))) \<and>
   (\<forall>u. data req = WithPrompt (JStr u) \<and> u \<noteq> [] \<and>
        stream_fails (generateStream ai (createCorpspeakPrompt u)) \<longrightarrow>
          length (filter is_error (onCallGenkit_events ai req)) = 1 \<and>
          filter is_result (onCallGenkit_events ai req) = [])"
proof -
  obtain fs t where a: "onCall_events ai req = map Fragment fs @ [t]" "is_terminal t"
    using onCall_events_shape by blast
  obtain gs s where b: "onCallGenkit_events ai req = map Fragment gs @ [s]" "is_terminal s"
    using onCallGenkit_events_shape by blast
  have c: "length (filter is_error (onCall_events ai req)) = 1 \<and>
           filter is_result (onCall_events ai req) = [] \<and>
           (acceptsStreaming req \<longrightarrow>
              fragments_view (onCall_events ai req) =
                chunks (generateStream ai (createCorpspeakPrompt u)))"
    if h: "data req = WithPrompt (JStr u)" "truthy (trim u)"
       "producer_fails ai (acceptsStreaming req) (createCorpspeakPrompt u)" for u
  proof -
    obtain f where "onCall_events ai req =
        map Fragment (if acceptsStreaming req
                      then chunks (generateStream ai (createCorpspeakPrompt u)) else [])
        @ [Error f]"
      using onCall_failure[OF h] by blast
    from failing_shape[OF this] show ?thesis by simp
  qed
  have d: "length (filter is_error (onCallGenkit_events ai req)) = 1 \<and>
           filter is_result (onCallGenkit_events ai req) = []"
    if h: "data req = WithPrompt (JStr u)" "u \<noteq> []"
       "stream_fails (generateStream ai (createCorpspeakPrompt u))" for u
  proof -
    obtain hs f where "onCallGenkit_events ai req = map Fragment hs @ [Error f]"
      using onCallGenkit_failure[OF h] by blast
    from failing_shape[OF this] show ?thesis by simp
  qed
  from one_terminal_shape[OF a] one_terminal_shape[OF b] c d show ?thesis by blast
qed

lemma trim_server_down: "trim (js ''The server is down.'') = js ''The server is down.''"
  by (simp add: trim_def js_def isWhiteSpace_def)

theorem exactly_one_terminal_event_witness:
  "data (server_down True) = WithPrompt (JStr (js ''The server is down.'')) \<and>
   truthy (trim (js ''The server is down.'')) \<and>
   js ''The server is down.'' \<noteq> [] \<and>
   producer_fails failing_ai (acceptsStreaming (server_down True))
     (createCorpspeakPrompt (js ''The server is down.'')) \<and>
   stream_fails (generateStream failing_ai (createCorpspeakPrompt (js ''The server is down.''))) \<and>
   length (filter is_terminal (onCall_events failing_ai (server_down True))) = 1 \<and>
   length (filter is_error (onCall_events failing_ai (server_down True))) = 1 \<and>
   filter is_result (onCall_events failing_ai (server_down True)) = [] \<and>
   fragments_view (onCall_events failing_ai (server_down True)) = [js ''Per '', js ''our ''] \<and>
   length (filter is_error (onCallGenkit_events failing_ai (server_down True))) = 1 \<and>
   filter is_result (onCallGenkit_events failing_ai (server_down True)) = []"
  using exactly_one_terminal_event[of failing_ai "server_down True"]
  by (simp add: server_down_def failing_ai_def producer_fails_def stream_fails_def
        truthy_def trim_server_down) (simp add: js_def)

section \<open>Fragments in order\<close>

lemma send_chunks_split:
  "send_chunks tr (xs @ ys) = send_chunks (send_chunks tr xs) ys"
  by (simp add: send_chunks_eq)

lemma flow_chunks_split:
  "flow_chunks sc tr (xs @ ys) = flow_chunks sc (flow_chunks sc tr xs) ys"
  by (simp add: flow_chunks_eq)

lemma final_view_shape:
  "is_terminal t \<Longrightarrow> final_view (map Fragment fs @ [t]) = [t]"
  by (simp add: final_view_def filter_terminal_fragments)

lemma truthy_trim_nonempty: "truthy (trim u) \<Longrightarrow> u \<noteq> []"
  by (auto simp: truthy_def trim_def)

lemma js_Nil_iff: "js s = [] \<longleftrightarrow> s = []"
  by (simp add: js_def)

lemma clean_spaced:
  "clean_chunk (js ''Synergy'') = js ''Synergy''" "clean_chunk (js '' '') = []"
  "clean_chunk (js ''\<newline>'') = []" "clean_chunk (js ''now'') = js ''now''"
  by (simp_all add: clean_chunk_def trim_def js_def isWhiteSpace_def)

lemma spaced_chunks:
  "chunks (generateStream spaced_ai p) = [js ''Synergy'', js '' '', js ''\<newline>'', js ''now'']"
  by (simp add: spaced_ai_def)

lemma spaced_genkit_fragments:
  "fragments_view (onCallGenkit_events spaced_ai (server_down True)) =
     [js ''Synergy'', js ''now'']"
proof -
  have u: "data (server_down True) = WithPrompt (JStr (js ''The server is down.''))"
          "js ''The server is down.'' \<noteq> []"
    by (simp_all add: server_down_def js_Nil_iff)
  have a: "acceptsStreaming (server_down True)"
    by (simp add: server_down_def)
  have g: "generateStream spaced_ai p =
             \<lparr>chunks = [js ''Synergy'', js '' '', js ''\<newline>'', js ''now''],
              stream_error = None, response = Inr (js ''Synergy now'')\<rparr>" for p
    by (simp add: spaced_ai_def)
  show ?thesis
    unfolding onCallGenkit_events_valid[OF u] g
    by (simp add: a clean_spaced truthy_def js_Nil_iff fragments_view_def)
qed

text \<open>
  C2, as stated, fails on the Genkit flow: of the four fragments the producer
  yields, the two that are blank after cleaning are never sent, so the client
  sees two fragment events, not four.
\<close>

theorem genkit_drops_blank_fragment:
  "chunks (generateStream spaced_ai (createCorpspeakPrompt (js ''The server is down.''))) =
     [js ''Synergy'', js '' '', js ''\<newline>'', js ''now''] \<and>
   fragments_view (onCallGenkit_events spaced_ai (server_down True)) =
     [js ''Synergy'', js ''now''] \<and>
   fragments_view (onCallGenkit_events spaced_ai (server_down True)) \<noteq>
     chunks (generateStream spaced_ai (createCorpspeakPrompt (js ''The server is down.'')))"
  by (simp add: spaced_chunks spaced_genkit_fragments)

text \<open>
  C2, amended. On an incremental call with a valid prompt, the callable handler
  emits every fragment of the producer verbatim as one fragment event, in order,
  in the loop iteration that receives it (after any prefix of the stream, exactly
  that prefix has been sent). The Genkit flow cleans each fragment (line feeds to
  spaces, then trimmed) and emits it in the same way unless it is empty after
  cleaning, in which case it is dropped. On both variants, when the producer ends
  normally the final view is the one result event carrying the producer's full
  text, whatever the fragments were.
\<close>

theorem fragments_in_order:
  "data req = WithPrompt (JStr u) \<and> truthy (trim u) \<and> acceptsStreaming req \<longrightarrow>
     fragments_view (onCall_events ai req) =
       chunks (generateStream ai (createCorpspeakPrompt u)) \<and>
     fragments_view (onCallGenkit_events ai req) =
       filter truthy (map clean_chunk (chunks (generateStream ai (createCorpspeakPrompt u)))) \<and>
     (\<forall>tr xs ys.
        send_chunks tr (xs @ ys) = send_chunks (send_chunks tr xs) ys \<and>
        sent_chunks (send_chunks tr xs) = sent_chunks tr @ xs \<and>
        flow_chunks True tr (xs @ ys) = flow_chunks True (flow_chunks True tr xs) ys \<and>
        sent_chunks (flow_chunks True tr xs) =
          sent_chunks tr @ filter truthy (map clean_chunk xs)) \<and>
     (\<forall>text. stream_error (generateStream ai (createCorpspeakPrompt u)) = None \<and>
             response (generateStream ai (createCorpspeakPrompt u)) = Inr text \<longrightarrow>
        final_view (onCall_events ai req) = [Result (Completion text)] \<and>
        final_view (onCallGenkit_events ai req) = [Result (Corpspeak text)])"
proof (intro impI, elim conjE)
  assume u: "data req = WithPrompt (JStr u)" and t: "truthy (trim u)" and a: "acceptsStreaming req"
  have n: "u \<noteq> []" using t by (rule truthy_trim_nonempty)
  let ?g = "generateStream ai (createCorpspeakPrompt u)"
  have 1: "fragments_view (onCall_events ai req) = chunks ?g"
    by (simp add: onCall_events_streaming[OF u t a] fragments_view_fragments is_terminal_def
          split: option.splits sum.splits)
  have 2: "fragments_view (onCallGenkit_events ai req) =
             filter truthy (map clean_chunk (chunks ?g))"
    using a
    by (simp add: onCallGenkit_events_valid[OF u n] fragments_view_fragments is_terminal_def
          split: option.splits sum.splits)
  have 3: "send_chunks tr (xs @ ys) = send_chunks (send_chunks tr xs) ys \<and>
        sent_chunks (send_chunks tr xs) = sent_chunks tr @ xs \<and>
        flow_chunks True tr (xs @ ys) = flow_chunks True (flow_chunks True tr xs) ys \<and>
        sent_chunks (flow_chunks True tr xs) =
          sent_chunks tr @ filter truthy (map clean_chunk xs)" for tr xs ys
    by (simp add: send_chunks_eq flow_chunks_eq sent_chunks_append sent_chunks_map)
  have 4: "final_view (onCall_events ai req) = [Result (Completion text)] \<and>
        final_view (onCallGenkit_events ai req) = [Result (Corpspeak text)]"
    if "stream_error ?g = None" "response ?g = Inr text" for "text"
    using that a
    by (simp add: onCall_events_streaming[OF u t a] onCallGenkit_events_valid[OF u n]
          final_view_shape is_terminal_def)
  from 1 2 3 4 show "fragments_view (onCall_events ai req) = chunks ?g \<and>
     fragments_view (onCallGenkit_events ai req) =
       filter truthy (map clean_chunk (chunks ?g)) \<and>
     (\<forall>tr xs ys.
        send_chunks tr (xs @ ys) = send_chunks (send_chunks tr xs) ys \<and>
        sent_chunks (send_chunks tr xs) = sent_chunks tr @ xs \<and>
        flow_chunks True tr (xs @ ys) = flow_chunks True (flow_chunks True tr xs) ys \<and>
        sent_chunks (flow_chunks True tr xs) =
          sent_chunks tr @ filter truthy (map clean_chunk xs)) \<and>
     (\<forall>text. stream_error ?g = None \<and> response ?g = Inr text \<longrightarrow>
        final_view (onCall_events ai req) = [Result (Completion text)] \<and>
        final_view (onCallGenkit_events ai req) = [Result (Corpspeak text)])"
    by blast
qed

lemma clean_review:
  "filter truthy (map clean_chunk [js ''Per '', js ''our '', js ''strategic review, ''])
     = [js ''Per'', js ''our'', js ''strategic review,'']"
  by (simp add: clean_chunk_def trim_def js_def isWhiteSpace_def truthy_def)

theorem fragments_in_order_witness:
  "data (server_down True) = WithPrompt (JStr (js ''The server is down.'')) \<and>
   truthy (trim (js ''The server is down.'')) \<and>
   acceptsStreaming (server_down True) \<and>
   stream_error (generateStream review_ai (createCorpspeakPrompt (js ''The server is down.''))) = None \<and>
   response (generateStream review_ai (createCorpspeakPrompt (js ''The server is down.''))) =
     Inr full_sentence \<and>
   fragments_view (onCall_events review_ai (server_down True)) =
     [js ''Per '', js ''our '', js ''strategic review, ''] \<and>
   fragments_view (onCallGenkit_events review_ai (server_down True)) =
     [js ''Per'', js ''our'', js ''strategic review,''] \<and>
   final_view (onCall_events review_ai (server_down True)) = [Result (Completion full_sentence)] \<and>
   final_view (onCallGenkit_events review_ai (server_down True)) =
     [Result (Corpspeak full_sentence)]"
proof -
  have g: "chunks (generateStream review_ai (createCorpspeakPrompt (js ''The server is down.'')))
           = [js ''Per '', js ''our '', js ''strategic review, '']"
    by (simp add: review_ai_def)
  have n: "truthy (trim (js ''The server is down.''))"
    by (simp add: trim_server_down truthy_def js_Nil_iff)
  show ?thesis
    using fragments_in_order[of "server_down True" "js ''The server is down.''" review_ai] n
    unfolding g clean_review
    by (simp add: server_down_def review_ai_def)
qed

section \<open>Invalid input\<close>

lemma inputSchema_iff: "inputSchema d \<longleftrightarrow> (\<exists>u. d = WithPrompt (JStr u) \<and> u \<noteq> [])"
  by (auto simp: inputSchema_def Suc_le_eq split: req_data.splits jsval.splits)

lemma onCallGenkit_calls_valid:
  assumes "data req = WithPrompt (JStr u)" "u \<noteq> []"
  shows "onCallGenkit_calls ai req = [CallGenerateStream (createCorpspeakPrompt u)]"
  using assms
  by (simp add: onCallGenkit_calls_def inputSchema_def corpspeakGeneratorFlow_def Let_def
        flow_chunks_eq producer_calls_append producer_calls_map Suc_le_eq
        split: option.splits sum.splits)

lemma blank_is_invalid: "invalid_prompt (JStr (js ''   ''))"
  by (simp add: invalid_prompt_def js_def isWhiteSpace_def)

text \<open>
  C3, as stated, fails on the Genkit flow: a prompt of three spaces is
  whitespace-only, yet the schema admits it, the producer is called with it and
  the call ends in a result event.
\<close>

theorem genkit_accepts_blank_prompt:
  "data (blank_request True) = WithPrompt (JStr (js ''   '')) \<and>
   invalid_prompt (JStr (js ''   '')) \<and>
   onCallGenkit_calls review_ai (blank_request True) =
     [CallGenerateStream (createCorpspeakPrompt (js ''   ''))] \<and>
   final_view (onCallGenkit_events review_ai (blank_request True)) =
     [Result (Corpspeak full_sentence)]"
proof -
  have u: "data (blank_request True) = WithPrompt (JStr (js ''   ''))" "js ''   '' \<noteq> []"
    by (simp_all add: blank_request_def js_Nil_iff)
  have g: "generateStream review_ai p =
             \<lparr>chunks = [js ''Per '', js ''our '', js ''strategic review, ''],
              stream_error = None, response = Inr full_sentence\<rparr>" for p
    by (simp add: review_ai_def)
  have f: "final_view (onCallGenkit_events review_ai (blank_request True)) =
             [Result (Corpspeak full_sentence)]"
    unfolding onCallGenkit_events_valid[OF u] g
    by (simp add: final_view_def is_terminal_def)
  from u(1) blank_is_invalid f onCallGenkit_calls_valid[OF u, of review_ai]
  show ?thesis by simp
qed

text \<open>
  A call whose data is \<open>null\<close> or \<open>undefined\<close> does not reach the check of the
  callable handler: reading the prompt throws, the call ends in that
  \<open>TypeError\<close>, not in the invalid-argument error, and the producer is not called.
\<close>

lemma null_data_type_error:
  "onCall_events ai (null_request streaming) = [Error TypeError] \<and>
   fst (generateCorpspeak ai (null_request streaming)) = []"
  by (simp add: onCall_events_def generateCorpspeak_def null_request_def)

text \<open>
  C3, amended. On a request whose data is not \<open>null\<close> or \<open>undefined\<close>, the callable
  handler rejects a prompt that is missing, not a string, or empty or
  whitespace-only, in both modes, with an invalid-argument error and before any
  producer call or chunk. The Genkit flow's schema refuses, before any producer
  call, every request but those whose prompt is a non-empty string; every
  non-empty string, whitespace-only ones included, reaches the producer.
\<close>

theorem invalid_input_rejected:
  "(\<forall>v. data req = WithPrompt v \<and> invalid_prompt v \<longrightarrow>
      onCall_events ai req =
        [Error (Https (HttpsError InvalidArgument
           (js ''The function must be called with a non-empty \"prompt\" string.'')))] \<and>
      fst (generateCorpspeak ai req) = []) \<and>
   (\<not> (\<exists>u. data req = WithPrompt (JStr u) \<and> u \<noteq> []) \<longrightarrow>
      onCallGenkit_events ai req = [Error SchemaViolation] \<and>
      onCallGenkit_calls ai req = []) \<and>
   (\<forall>u. data req = WithPrompt (JStr u) \<and> u \<noteq> [] \<longrightarrow>
      onCallGenkit_calls ai req = [CallGenerateStream (createCorpspeakPrompt u)])"
proof (intro conjI impI allI)
  fix v assume "data req = WithPrompt v \<and> invalid_prompt v"
  then have r: "generateCorpspeak ai req =
       ([], Inl (Https (HttpsError InvalidArgument
          (js ''The function must be called with a non-empty \"prompt\" string.''))))"
    using invalid_prompt_rejected by blast
  show "onCall_events ai req =
        [Error (Https (HttpsError InvalidArgument
           (js ''The function must be called with a non-empty \"prompt\" string.'')))]"
    by (simp add: onCall_events_def r)
  show "fst (generateCorpspeak ai req) = []"
    by (simp add: r)
next
  assume "\<not> (\<exists>u. data req = WithPrompt (JStr u) \<and> u \<noteq> [])"
  then have n: "\<not> inputSchema (data req)"
    by (simp add: inputSchema_iff)
  show "onCallGenkit_events ai req = [Error SchemaViolation]"
    using n by (simp add: onCallGenkit_events_def)
  show "onCallGenkit_calls ai req = []"
    using n by (simp add: onCallGenkit_calls_def)
next
  fix u assume "data req = WithPrompt (JStr u) \<and> u \<noteq> []"
  then show "onCallGenkit_calls ai req = [CallGenerateStream (createCorpspeakPrompt u)]"
    using onCallGenkit_calls_valid by blast
qed

theorem invalid_input_rejected_witness:
  "data (blank_request True) = WithPrompt (JStr (js ''   '')) \<and>
   invalid_prompt (JStr (js ''   '')) \<and>
   onCall_events review_ai (blank_request True) =
     [Error (Https (HttpsError InvalidArgument
        (js ''The function must be called with a non-empty \"prompt\" string.'')))] \<and>
   fst (generateCorpspeak review_ai (blank_request True)) = [] \<and>
   data (empty_object_request False) = WithPrompt JUndefined \<and>
   invalid_prompt JUndefined \<and>
   onCall_events review_ai (empty_object_request False) =
     [Error (Https (HttpsError InvalidArgument
        (js ''The function must be called with a non-empty \"prompt\" string.'')))] \<and>
   fst (generateCorpspeak review_ai (empty_object_request False)) = [] \<and>
   onCallGenkit_events review_ai (empty_object_request False) = [Error SchemaViolation] \<and>
   onCallGenkit_calls review_ai (empty_object_request False) = [] \<and>
   onCallGenkit_events review_ai (null_request True) = [Error SchemaViolation] \<and>
   onCallGenkit_calls review_ai (null_request True) = [] \<and>
   js ''   '' \<noteq> [] \<and>
   onCallGenkit_calls review_ai (blank_request True) =
     [CallGenerateStream (createCorpspeakPrompt (js ''   ''))]"
proof -
  have u: "data (blank_request True) = WithPrompt (JStr (js ''   ''))" "js ''   '' \<noteq> []"
    by (simp_all add: blank_request_def js_Nil_iff)
  have e: "data (empty_object_request False) = WithPrompt JUndefined"
    "invalid_prompt JUndefined"
    by (simp_all add: empty_object_request_def invalid_prompt_def)
  have n: "data (null_request True) = Nullish"
    by (simp add: null_request_def)
  show ?thesis
    using invalid_input_rejected[of "blank_request True" review_ai]
      invalid_input_rejected[of "empty_object_request False" review_ai]
      invalid_input_rejected[of "null_request True" review_ai]
      u e n blank_is_invalid
    by simp
qed

section \<open>The two modes of the callable handler\<close>

lemma completion_texts_fragments:
  "completion_texts (map Fragment fs @ evs) = completion_texts evs"
  by (induction fs) simp_all

lemma generateCorpspeak_calls_streaming:
  assumes "data req = WithPrompt (JStr u)" "truthy (trim u)" "acceptsStreaming req"
  shows "producer_calls (fst (generateCorpspeak ai req)) =
           [CallGenerateStream (createCorpspeakPrompt u)]"
  using assms
  by (simp add: generateCorpspeak_def Let_def send_chunks_eq producer_calls_append
        producer_calls_map split: option.splits sum.splits)

lemma generateCorpspeak_calls_plain:
  assumes "data req = WithPrompt (JStr u)" "truthy (trim u)" "\<not> acceptsStreaming req"
  shows "fst (generateCorpspeak ai req) = [CallGenerate (createCorpspeakPrompt u)]"
  using assms
  by (simp add: generateCorpspeak_def Let_def split: sum.splits)

text \<open>
  C4. For a prompt that is non-empty after trimming and a producer whose two
  entry points agree on the final text, the incremental and the non-incremental
  call of the callable handler carry the same completion text; both pass the
  producer the same prompt, built by \<open>createCorpspeakPrompt\<close> from the user input.
\<close>

theorem same_final_text:
  assumes "truthy (trim u)"
    and "stream_error (generateStream ai (createCorpspeakPrompt u)) = None"
    and "response (generateStream ai (createCorpspeakPrompt u)) =
           generate ai (createCorpspeakPrompt u)"
  shows "completion_texts (onCall_events ai \<lparr>data = WithPrompt (JStr u), acceptsStreaming = True\<rparr>) =
         completion_texts (onCall_events ai \<lparr>data = WithPrompt (JStr u), acceptsStreaming = False\<rparr>) \<and>
         (\<forall>final. generate ai (createCorpspeakPrompt u) = Inr final \<longrightarrow>
            completion_texts (onCall_events ai \<lparr>data = WithPrompt (JStr u), acceptsStreaming = True\<rparr>)
              = [final] \<and>
            completion_texts (onCall_events ai \<lparr>data = WithPrompt (JStr u), acceptsStreaming = False\<rparr>)
              = [final]) \<and>
         producer_calls (fst (generateCorpspeak ai \<lparr>data = WithPrompt (JStr u), acceptsStreaming = True\<rparr>))
           = [CallGenerateStream (createCorpspeakPrompt u)] \<and>
         producer_calls (fst (generateCorpspeak ai \<lparr>data = WithPrompt (JStr u), acceptsStreaming = False\<rparr>))
           = [CallGenerate (createCorpspeakPrompt u)]"
proof -
  let ?s = "\<lparr>data = WithPrompt (JStr u), acceptsStreaming = True\<rparr>"
  let ?n = "\<lparr>data = WithPrompt (JStr u), acceptsStreaming = False\<rparr>"
  have s: "data ?s = WithPrompt (JStr u)" "truthy (trim u)" "acceptsStreaming ?s"
    using assms(1) by simp_all
  have n: "data ?n = WithPrompt (JStr u)" "truthy (trim u)" "\<not> acceptsStreaming ?n"
    using assms(1) by simp_all
  have a: "completion_texts (onCall_events ai ?s) =
           (case generate ai (createCorpspeakPrompt u) of Inl e \<Rightarrow> [] | Inr t \<Rightarrow> [t])"
    unfolding onCall_events_streaming[OF s] completion_texts_fragments
    using assms(2,3) by (simp split: sum.splits)
  have b: "completion_texts (onCall_events ai ?n) =
           (case generate ai (createCorpspeakPrompt u) of Inl e \<Rightarrow> [] | Inr t \<Rightarrow> [t])"
    unfolding onCall_events_plain[OF n]
    by (simp split: sum.splits)
  show ?thesis
    unfolding a b
    using generateCorpspeak_calls_streaming[OF s, of ai]
      generateCorpspeak_calls_plain[OF n, of ai]
    by simp
qed

theorem same_final_text_witness:
  "truthy (trim (js ''The server is down.'')) \<and>
   stream_error (generateStream review_ai
     (createCorpspeakPrompt (js ''The server is down.''))) = None \<and>
   response (generateStream review_ai (createCorpspeakPrompt (js ''The server is down.''))) =
     generate review_ai (createCorpspeakPrompt (js ''The server is down.'')) \<and>
   generate review_ai (createCorpspeakPrompt (js ''The server is down.'')) = Inr full_sentence \<and>
   completion_texts (onCall_events review_ai (server_down True)) = [full_sentence] \<and>
   completion_texts (onCall_events review_ai (server_down False)) = [full_sentence]"
proof -
  have n: "truthy (trim (js ''The server is down.''))"
    by (simp add: trim_server_down truthy_def js_Nil_iff)
  have g: "stream_error (generateStream review_ai p) = None"
          "response (generateStream review_ai p) = generate review_ai p"
          "generate review_ai p = Inr full_sentence" for p
    by (simp_all add: review_ai_def)
  show ?thesis
    using same_final_text[OF n g(1) g(2)] n g
    by (simp add: server_down_def)
qed

section \<open>The non-incremental mode\<close>

text \<open>
  C5. A non-incremental call with a valid prompt calls the producer once, hands no
  chunk to the transport, and yields a single event, computed from what the
  producer returned: the result event with the completion text when the producer
  completes (and the error event when it fails).
\<close>

theorem non_incremental_single_result:
  assumes "data req = WithPrompt (JStr u)" and "truthy (trim u)" and "\<not> acceptsStreaming req"
  shows "fst (generateCorpspeak ai req) = [CallGenerate (createCorpspeakPrompt u)] \<and>
         sent_chunks (fst (generateCorpspeak ai req)) = [] \<and>
         fragments_view (onCall_events ai req) = [] \<and>
         length (onCall_events ai req) = 1 \<and>
         (\<forall>final. generate ai (createCorpspeakPrompt u) = Inr final \<longrightarrow>
            onCall_events ai req = [Result (Completion final)]) \<and>
         (\<forall>e. generate ai (createCorpspeakPrompt u) = Inl e \<longrightarrow>
            onCall_events ai req =
              [Error (Https (HttpsError Internal
                 (js ''Non-streaming generation failed: '' @ message_text e)))])"
  unfolding onCall_events_plain[OF assms] generateCorpspeak_calls_plain[OF assms]
  by (simp add: fragments_view_def split: sum.splits)

theorem non_incremental_single_result_witness:
  "data (server_down False) = WithPrompt (JStr (js ''The server is down.'')) \<and>
   truthy (trim (js ''The server is down.'')) \<and>
   \<not> acceptsStreaming (server_down False) \<and>
   generate review_ai (createCorpspeakPrompt (js ''The server is down.'')) = Inr full_sentence \<and>
   generate failing_ai (createCorpspeakPrompt (js ''The server is down.'')) = Inl quota_error \<and>
   onCall_events review_ai (server_down False) = [Result (Completion full_sentence)] \<and>
   fragments_view (onCall_events review_ai (server_down False)) = [] \<and>
   onCall_events failing_ai (server_down False) =
     [Error (Https (HttpsError Internal
        (js ''Non-streaming generation failed: '' @ message_text quota_error)))]"
proof -
  have n: "truthy (trim (js ''The server is down.''))"
    by (simp add: trim_server_down truthy_def js_Nil_iff)
  have p: "data (server_down False) = WithPrompt (JStr (js ''The server is down.''))"
    and a: "\<not> acceptsStreaming (server_down False)"
    by (simp_all add: server_down_def)
  have g: "generate review_ai q = Inr full_sentence" "generate failing_ai q = Inl quota_error"
    for q
    by (simp_all add: review_ai_def failing_ai_def)
  show ?thesis
    using non_incremental_single_result[OF p n a, of review_ai]
      non_incremental_single_result[OF p n a, of failing_ai] n p a g
    by (simp add: fragments_view_def)
qed

section \<open>Fragments of the Genkit flow\<close>

lemma clean_chunk_no_line_feed: "0x0A \<notin> set (clean_chunk c)"
proof
  assume "0x0A \<in> set (clean_chunk c)"
  then have "0x0A \<in> set (map (\<lambda>c. if c = 0x0A then 0x20 else c) c)"
    using set_trim unfolding clean_chunk_def by blast
  then show False by auto
qed

lemma genkit_fragments_cases:
  "fragments_view (onCallGenkit_events ai req) = [] \<or>
   (\<exists>u. data req = WithPrompt (JStr u) \<and> u \<noteq> [] \<and> acceptsStreaming req \<and>
        fragments_view (onCallGenkit_events ai req) =
          filter truthy (map clean_chunk (chunks (generateStream ai (createCorpspeakPrompt u)))))"
proof (cases "inputSchema (data req) \<and> acceptsStreaming req")
  case True
  then obtain u where u: "data req = WithPrompt (JStr u)" "u \<noteq> []"
    by (auto simp: inputSchema_iff)
  have "fragments_view (onCallGenkit_events ai req) =
          filter truthy (map clean_chunk (chunks (generateStream ai (createCorpspeakPrompt u))))"
    using True
    by (simp add: onCallGenkit_events_valid[OF u] fragments_view_fragments is_terminal_def
          split: option.splits sum.splits)
  with u True show ?thesis by blast
next
  case False
  show ?thesis
  proof (cases "inputSchema (data req)")
    case True
    then obtain u where u: "data req = WithPrompt (JStr u)" "u \<noteq> []"
      by (auto simp: inputSchema_iff)
    from True False have "\<not> acceptsStreaming req" by simp
    then have "fragments_view (onCallGenkit_events ai req) = []"
      by (simp add: onCallGenkit_events_valid[OF u] fragments_view_def
            split: option.splits sum.splits)
    then show ?thesis ..
  next
    case False
    then have "fragments_view (onCallGenkit_events ai req) = []"
      by (simp add: onCallGenkit_events_def fragments_view_def)
    then show ?thesis ..
  qed
qed

text \<open>
  C9. Every fragment event of the Genkit flow carries a non-empty string without
  line feed; on an incremental call the fragments are the producer's chunks,
  cleaned, without those that are empty after cleaning, so there may be fewer
  fragment events than producer fragments.
\<close>

theorem genkit_fragments_clean:
  "(\<forall>p \<in> set (fragments_view (onCallGenkit_events ai req)). p \<noteq> [] \<and> 0x0A \<notin> set p) \<and>
   (\<forall>u. data req = WithPrompt (JStr u) \<and> u \<noteq> [] \<and> acceptsStreaming req \<longrightarrow>
      fragments_view (onCallGenkit_events ai req) =
        filter truthy (map clean_chunk (chunks (generateStream ai (createCorpspeakPrompt u)))) \<and>
      length (fragments_view (onCallGenkit_events ai req)) \<le>
        length (chunks (generateStream ai (createCorpspeakPrompt u))))"
proof (intro conjI ballI allI impI)
  fix p assume p: "p \<in> set (fragments_view (onCallGenkit_events ai req))"
  from genkit_fragments_cases[of ai req] p
  have "\<exists>u. p \<in> set (filter truthy (map clean_chunk
      (chunks (generateStream ai (createCorpspeakPrompt u)))))"
    by fastforce
  then obtain c where c: "p = clean_chunk c" "truthy p" by auto
  show "p \<noteq> []" using c(2) by (simp add: truthy_def)
  show "0x0A \<notin> set p" unfolding c(1) by (rule clean_chunk_no_line_feed)
next
  fix u assume u: "data req = WithPrompt (JStr u) \<and> u \<noteq> [] \<and> acceptsStreaming req"
  then have e: "fragments_view (onCallGenkit_events ai req) =
        filter truthy (map clean_chunk (chunks (generateStream ai (createCorpspeakPrompt u))))"
    using genkit_fragments_cases[of ai req] 
    by (simp add: onCallGenkit_events_valid fragments_view_fragments is_terminal_def
          split: option.splits sum.splits)
  show "fragments_view (onCallGenkit_events ai req) =
        filter truthy (map clean_chunk (chunks (generateStream ai (createCorpspeakPrompt u))))"
    by (rule e)
  show "length (fragments_view (onCallGenkit_events ai req)) \<le>
        length (chunks (generateStream ai (createCorpspeakPrompt u)))"
    unfolding e using length_filter_le[of truthy "map clean_chunk
      (chunks (generateStream ai (createCorpspeakPrompt u)))"] by simp
qed

theorem genkit_fragments_clean_witness:
  "js ''now'' \<in> set (fragments_view (onCallGenkit_events spaced_ai (server_down True))) \<and>
   js ''now'' \<noteq> [] \<and> 0x0A \<notin> set (js ''now'') \<and>
   data (server_down True) = WithPrompt (JStr (js ''The server is down.'')) \<and>
   js ''The server is down.'' \<noteq> [] \<and> acceptsStreaming (server_down True) \<and>
   length (fragments_view (onCallGenkit_events spaced_ai (server_down True))) = 2 \<and>
   length (chunks (generateStream spaced_ai
     (createCorpspeakPrompt (js ''The server is down.'')))) = 4"
proof -
  have m: "js ''now'' \<in> set (fragments_view (onCallGenkit_events spaced_ai (server_down True)))"
    by (simp add: spaced_genkit_fragments)
  have u: "data (server_down True) = WithPrompt (JStr (js ''The server is down.''))"
          "js ''The server is down.'' \<noteq> []" "acceptsStreaming (server_down True)"
    by (simp_all add: server_down_def js_Nil_iff)
  from genkit_fragments_clean[of spaced_ai "server_down True"] m
  have "js ''now'' \<noteq> [] \<and> 0x0A \<notin> set (js ''now'')" by blast
  with m u show ?thesis
    by (simp add: spaced_genkit_fragments spaced_chunks)
qed

section \<open>The client: blank input\<close>

lemma blank_not_truthy: "list_all isWhiteSpace p \<Longrightarrow> \<not> truthy (trim p)"
  by (simp add: truthy_def trim_empty_iff)

text \<open>
  C10. On an input that is empty or whitespace-only, either request handler
  returns at once: the only thing it may do is re-enable the buttons (when the
  other call is not in flight). No network call is issued, no output or timer
  element is written, nothing is logged to the console, and start times, flags
  and content are unchanged.
\<close>

theorem blank_input_ignored:
  assumes "list_all isWhiteSpace promptText"
  shows "handleNonStreamingRequest t0 promptText call s =
           s\<lparr>effects := effects s @ (if streamingOpInProgress s then [] else [SetLoading False])\<rparr> \<and>
         handleStreamingRequest t0 promptText scall s =
           s\<lparr>effects := effects s @ (if nonStreamingOpInProgress s then [] else [SetLoading False])\<rparr> \<and>
         ns_view (handleNonStreamingRequest t0 promptText call s) = ns_view s \<and>
         s_view (handleNonStreamingRequest t0 promptText call s) = s_view s \<and>
         ns_view (handleStreamingRequest t0 promptText scall s) = ns_view s \<and>
         s_view (handleStreamingRequest t0 promptText scall s) = s_view s"
  using blank_not_truthy[OF assms]
  by (simp add: handleNonStreamingRequest_def handleStreamingRequest_def ns_start_def
        s_start_def setLoading_def emit_def ns_view_def s_view_def)

theorem blank_input_ignored_witness:
  "list_all isWhiteSpace (js ''   '') \<and>
   handleNonStreamingRequest 0 (js ''   '') (1, Inr full_sentence) initial =
     initial\<lparr>effects := [SetLoading False]\<rparr> \<and>
   handleStreamingRequest 0 (js ''   '') (OpenFails 1 quota_error) initial =
     initial\<lparr>effects := [SetLoading False]\<rparr>"
proof -
  have b: "list_all isWhiteSpace (js ''   '')"
    by (simp add: js_def isWhiteSpace_def)
  show ?thesis
    using blank_input_ignored[OF b, of 0 "(1, Inr full_sentence)" initial "OpenFails 1 quota_error"] b
    by (simp add: initial_def)
qed

section \<open>The client: accumulated content\<close>

lemma s_chunk_content:
  "streamedContent (s_chunk t p s) = streamedContent s @ p"
  by (simp add: s_chunk_def Let_def emit_def updateTimerDisplay_def truthy_def
        split: option.splits)

lemma s_chunks_content:
  "streamedContent (s_chunks cs s) = streamedContent s @ concat (map snd cs)"
  by (induction cs s rule: s_chunks.induct) (simp_all add: s_chunk_content)

lemma s_chunks_append: "s_chunks (xs @ ys) s = s_chunks ys (s_chunks xs s)"
  by (induction xs s rule: s_chunks.induct) simp_all

lemma dropWhile_suffix_rev: "prefix (rev (dropWhile P (rev b))) b"
proof -
  have "suffix (dropWhile P (rev b)) (rev b)" by (rule suffix_dropWhile)
  then have "prefix (rev (dropWhile P (rev b))) (rev (rev b))"
    by (simp only: suffix_to_prefix)
  then show ?thesis by simp
qed

lemma trim_append_prefix: "prefix (trim a) (trim (a @ p))"
proof (cases "\<forall>x\<in>set a. isWhiteSpace x")
  case True
  then have "trim a = []" by (simp add: trim_empty_iff list_all_iff)
  then show ?thesis by simp
next
  case False
  then have d: "dropWhile isWhiteSpace (a @ p) = dropWhile isWhiteSpace a @ p"
    by auto
  let ?b = "dropWhile isWhiteSpace a"
  show ?thesis
  proof (cases "\<forall>x\<in>set p. isWhiteSpace x")
    case True
    have "dropWhile isWhiteSpace (rev p @ rev ?b) = dropWhile isWhiteSpace (rev ?b)"
    proof (rule dropWhile_append2)
      fix x assume "x \<in> set (rev p)"
      with True show "isWhiteSpace x" by simp
    qed
    then show ?thesis by (simp add: trim_def d)
  next
    case False
    then have "dropWhile isWhiteSpace (rev p @ rev ?b) = dropWhile isWhiteSpace (rev p) @ rev ?b"
      by auto
    then have "trim (a @ p) = ?b @ rev (dropWhile isWhiteSpace (rev p))"
      by (simp add: trim_def d)
    moreover have "prefix (trim a) ?b"
      unfolding trim_def by (rule dropWhile_suffix_rev)
    ultimately show ?thesis by simp
  qed
qed

lemma s_chunk_display:
  "last (effects (s_chunk t p s)) = SetOutput Streaming (trim (streamedContent s @ p))"
  by (simp add: s_chunk_def Let_def emit_def updateTimerDisplay_def truthy_def
        split: option.splits)

text \<open>
  C7. The client's accumulator only ever appends: after each fragment the
  accumulated content is the previous content followed by the fragment's text, so
  the content after any number of fragments is a prefix of the content after
  more of them, and it is the concatenation of the fragments in arrival order.
  The text shown after each fragment, the trimmed content, grows in the same way.
\<close>

theorem content_only_grows:
  "streamedContent (s_chunk t p s) = streamedContent s @ p \<and>
   prefix (streamedContent s) (streamedContent (s_chunk t p s)) \<and>
   streamedContent (s_chunks cs s) = streamedContent s @ concat (map snd cs) \<and>
   prefix (streamedContent (s_chunks xs s)) (streamedContent (s_chunks (xs @ ys) s)) \<and>
   last (effects (s_chunk t p s)) = SetOutput Streaming (trim (streamedContent s @ p)) \<and>
   prefix (trim (streamedContent s)) (trim (streamedContent s @ p))"
  by (simp add: s_chunk_content s_chunks_content s_chunk_display trim_append_prefix)

section \<open>The client: time to first output\<close>

lemma ttfb_marks_append: "ttfb_marks (xs @ ys) = ttfb_marks xs @ ttfb_marks ys"
  by (induction xs rule: ttfb_marks.induct) simp_all

lemma s_chunk_fields:
  "streamingStartTime (s_chunk t p s) = streamingStartTime s"
  "streamingOpInProgress (s_chunk t p s) = streamingOpInProgress s"
  "firstChunkReceived (s_chunk t p s) = (firstChunkReceived s \<or> truthy p)"
  by (auto simp: s_chunk_def Let_def emit_def updateTimerDisplay_def split: option.splits)

lemma s_chunk_marks:
  "streamingStartTime s = Some t0 \<Longrightarrow>
   ttfb_marks (effects (s_chunk t p s)) =
     ttfb_marks (effects s) @ (if \<not> firstChunkReceived s \<and> truthy p then [t - t0] else [])"
  by (simp add: s_chunk_def Let_def emit_def updateTimerDisplay_def ttfb_marks_append)

lemma s_chunks_fields:
  "streamingStartTime (s_chunks cs s) = streamingStartTime s"
  "streamingOpInProgress (s_chunks cs s) = streamingOpInProgress s"
  "firstChunkReceived (s_chunks cs s) =
     (firstChunkReceived s \<or> find (\<lambda>c. truthy (snd c)) cs \<noteq> None)"
  by (induction cs s rule: s_chunks.induct) (auto simp: s_chunk_fields)

lemma s_chunks_marks:
  "streamingStartTime s = Some t0 \<Longrightarrow>
   ttfb_marks (effects (s_chunks cs s)) =
     ttfb_marks (effects s) @
     (if firstChunkReceived s then []
      else case find (\<lambda>c. truthy (snd c)) cs of None \<Rightarrow> [] | Some c \<Rightarrow> [fst c - t0])"
proof (induction cs s rule: s_chunks.induct)
  case (1 s)
  then show ?case by simp
next
  case (2 t p cs s)
  have "streamingStartTime (s_chunk t p s) = Some t0"
    using "2.prems" by (simp add: s_chunk_fields)
  from "2.IH"[OF this] show ?case
    using "2.prems" by (simp add: s_chunk_marks s_chunk_fields)
qed

lemma s_begin_fields:
  assumes "truthy (trim p)"
  shows "streamingStartTime (s_opened (s_start t0 p s)) = Some t0"
    "streamingOpInProgress (s_opened (s_start t0 p s))"
    "\<not> firstChunkReceived (s_opened (s_start t0 p s))"
    "ttfb_marks (effects (s_opened (s_start t0 p s))) = ttfb_marks (effects s)"
    "streamingStartTime (s_start t0 p s) = Some t0"
    "streamingOpInProgress (s_start t0 p s)"
    "\<not> firstChunkReceived (s_start t0 p s)"
    "ttfb_marks (effects (s_start t0 p s)) = ttfb_marks (effects s)"
  using assms
  by (simp_all add: s_opened_def s_start_def Let_def emit_def updateTimerDisplay_def
        ttfb_marks_append)

lemma s_finally_marks: "ttfb_marks (effects (s_finally s)) = ttfb_marks (effects s)"
  by (simp add: s_finally_def Let_def setLoading_def emit_def ttfb_marks_append)

lemma s_catch_marks:
  "streamingStartTime s = Some t0 \<Longrightarrow>
   ttfb_marks (effects (s_catch t e s)) =
     ttfb_marks (effects s) @
     (if \<not> firstChunkReceived s \<and> streamingOpInProgress s then [t - t0] else [])"
  by (simp add: s_catch_def Let_def s_finally_marks emit_def updateTimerDisplay_def
        ttfb_marks_append)

lemma s_end_marks:
  "streamingStartTime s = Some t0 \<Longrightarrow>
   ttfb_marks (effects (s_end t s)) =
     ttfb_marks (effects s) @
     (if \<not> firstChunkReceived s \<and> streamingOpInProgress s then [t - t0] else [])"
  by (simp add: s_end_def emit_def updateTimerDisplay_def ttfb_marks_append)

lemma s_end_fields:
  "streamingStartTime (s_end t s) = streamingStartTime s"
  "streamingOpInProgress (s_end t s) = streamingOpInProgress s"
  "firstChunkReceived (s_end t s) = firstChunkReceived s"
  by (simp_all add: s_end_def emit_def updateTimerDisplay_def split: option.splits)

lemma s_data_marks: "ttfb_marks (effects (s_data c s)) = ttfb_marks (effects s)"
  by (simp add: s_data_def s_finally_marks emit_def ttfb_marks_append)

text \<open>The marks one whole call adds, in every case.\<close>

lemma handleStreamingRequest_marks:
  assumes "truthy (trim p)"
  shows "ttfb_marks (effects (handleStreamingRequest t0 p call s)) =
     ttfb_marks (effects s) @
     (case call of
        OpenFails t e \<Rightarrow> [t - t0]
      | Opens cs ending \<Rightarrow>
          (case find (\<lambda>c. truthy (snd c)) cs of
             Some c \<Rightarrow> [fst c - t0]
           | None \<Rightarrow>
               (case ending of
                  Throws t e \<Rightarrow> [t - t0]
                | Ends t td (Inr completion) \<Rightarrow> [t - t0]
                | Ends t td (Inl e) \<Rightarrow> [t - t0, td - t0])))"
proof (cases call)
  case (OpenFails t e)
  then show ?thesis
    using assms s_begin_fields[OF assms, of t0 s]
    by (simp add: handleStreamingRequest_def s_catch_marks)
next
  case (Opens cs ending)
  let ?s1 = "s_chunks cs (s_opened (s_start t0 p s))"
  have st: "streamingStartTime ?s1 = Some t0" and ip: "streamingOpInProgress ?s1"
    and fc: "firstChunkReceived ?s1 = (find (\<lambda>c. truthy (snd c)) cs \<noteq> None)"
    using s_begin_fields[OF assms, of t0 s] by (simp_all add: s_chunks_fields)
  have m: "ttfb_marks (effects ?s1) = ttfb_marks (effects s) @
     (case find (\<lambda>c. truthy (snd c)) cs of None \<Rightarrow> [] | Some c \<Rightarrow> [fst c - t0])"
    using s_begin_fields[OF assms, of t0 s] by (simp add: s_chunks_marks)
  show ?thesis
  proof (cases ending)
    case (Throws t e)
    then show ?thesis
      using Opens assms st ip fc m
      by (simp add: handleStreamingRequest_def s_catch_marks split: option.splits)
  next
    case (Ends t td outcome)
    have st2: "streamingStartTime (s_end t ?s1) = Some t0" using st by (simp add: s_end_fields)
    show ?thesis
      using Opens Ends assms st ip fc m
      by (cases outcome)
         (simp_all add: handleStreamingRequest_def s_data_marks s_end_marks
            s_catch_marks[OF st2] s_end_fields split: option.splits)
  qed
qed

lemma trim_hi: "truthy (trim (js ''hi''))"
  by (simp add: trim_def js_def isWhiteSpace_def truthy_def)

text \<open>
  C6, as stated, fails: a fragment event whose \<open>partial\<close> is the empty string is
  observed first, at time 5, and does not stop the timer; the duration is taken
  at the first fragment with a non-empty \<open>partial\<close>, at time 9.
\<close>

theorem empty_fragment_not_first_output:
  "ttfb_marks (effects (handleStreamingRequest 0 (js ''hi'')
      (Opens [(5, []), (9, js ''Per '')] (Ends 12 13 (Inr full_sentence))) initial)) = [9 - 0] \<and>
   ttfb_marks (effects (handleStreamingRequest 0 (js ''hi'')
      (Opens [(5, []), (9, js ''Per '')] (Ends 12 13 (Inr full_sentence))) initial)) \<noteq> [5 - 0]"
  by (simp add: handleStreamingRequest_marks[OF trim_hi] truthy_def js_Nil_iff initial_def)

text \<open>
  When the stream ends without a non-empty fragment and the data promise then
  rejects, the timer is written after the loop and again in the \<open>catch\<close> block.
\<close>

lemma timer_written_twice:
  "ttfb_marks (effects (handleStreamingRequest 0 (js ''hi'')
      (Opens [] (Ends 12 13 (Inl quota_error))) initial)) = [12, 13]"
  by (simp add: handleStreamingRequest_marks[OF trim_hi] initial_def)

text \<open>
  C6, amended. On an incremental call the duration is written to the timer exactly
  once: at the first fragment event whose \<open>partial\<close> is non-empty, whatever
  follows it; if there is no such fragment, when the stream throws, or when it
  ends normally and the final result resolves, at the moment the loop is left;
  and when the call cannot be opened, at that failure. With a clock that does not
  run backwards no duration written is negative.
\<close>

theorem first_output_measured:
  assumes "truthy (trim promptText)"
  shows
    "(\<forall>c. find (\<lambda>c. truthy (snd c)) cs = Some c \<longrightarrow>
        ttfb_marks (effects (handleStreamingRequest start promptText (Opens cs ending) s)) =
          ttfb_marks (effects s) @ [fst c - start]) \<and>
     (find (\<lambda>c. truthy (snd c)) cs = None \<longrightarrow>
        ttfb_marks (effects (handleStreamingRequest start promptText (Opens cs (Throws t e)) s)) =
          ttfb_marks (effects s) @ [t - start] \<and>
        ttfb_marks (effects (handleStreamingRequest start promptText
            (Opens cs (Ends t td (Inr completion))) s)) =
          ttfb_marks (effects s) @ [t - start]) \<and>
     ttfb_marks (effects (handleStreamingRequest start promptText (OpenFails t e) s)) =
       ttfb_marks (effects s) @ [t - start] \<and>
     ((\<forall>x \<in> set (call_times call). start \<le> x) \<longrightarrow>
        (\<forall>d \<in> set (drop (length (ttfb_marks (effects s)))
                    (ttfb_marks (effects (handleStreamingRequest start promptText call s)))).
           0 \<le> d))"
proof (intro conjI allI impI)
  fix c assume "find (\<lambda>c. truthy (snd c)) cs = Some c"
  then show "ttfb_marks (effects (handleStreamingRequest start promptText (Opens cs ending) s)) =
          ttfb_marks (effects s) @ [fst c - start]"
    by (simp add: handleStreamingRequest_marks[OF assms])
next
  assume n: "find (\<lambda>c. truthy (snd c)) cs = None"
  show "ttfb_marks (effects (handleStreamingRequest start promptText (Opens cs (Throws t e)) s)) =
          ttfb_marks (effects s) @ [t - start]"
    using n by (simp add: handleStreamingRequest_marks[OF assms])
  show "ttfb_marks (effects (handleStreamingRequest start promptText
            (Opens cs (Ends t td (Inr completion))) s)) =
          ttfb_marks (effects s) @ [t - start]"
    using n by (simp add: handleStreamingRequest_marks[OF assms])
next
  show "ttfb_marks (effects (handleStreamingRequest start promptText (OpenFails t e) s)) =
       ttfb_marks (effects s) @ [t - start]"
    by (simp add: handleStreamingRequest_marks[OF assms])
next
  assume mono: "\<forall>x \<in> set (call_times call). start \<le> x"
  show "\<forall>d \<in> set (drop (length (ttfb_marks (effects s)))
                    (ttfb_marks (effects (handleStreamingRequest start promptText call s)))).
           0 \<le> d"
  proof (cases call)
    case (OpenFails t' e')
    then show ?thesis using mono by (simp add: handleStreamingRequest_marks[OF assms])
  next
    case (Opens cs' ending')
    show ?thesis
    proof (cases "find (\<lambda>c. truthy (snd c)) cs'")
      case (Some c)
      then have "c \<in> set cs'" by (auto simp: find_Some_iff)
      then have "start \<le> fst c" using mono Opens by simp
      then show ?thesis using Opens Some by (simp add: handleStreamingRequest_marks[OF assms])
    next
      case None
      show ?thesis
      proof (cases ending')
        case (Throws t' e')
        then show ?thesis
          using Opens None mono by (simp add: handleStreamingRequest_marks[OF assms])
      next
        case (Ends t' td' outcome)
        then show ?thesis
          using Opens None mono
          by (cases outcome) (simp_all add: handleStreamingRequest_marks[OF assms])
      qed
    qed
  qed
qed

theorem first_output_measured_witness:
  "truthy (trim (js ''hi'')) \<and>
   find (\<lambda>c. truthy (snd c)) [(5::real, []), (9, js ''Per ''), (11, js ''our '')] =
     Some (9, js ''Per '') \<and>
   ttfb_marks (effects (handleStreamingRequest 0 (js ''hi'')
      (Opens [(5, []), (9, js ''Per ''), (11, js ''our '')] (Throws 12 quota_error)) initial))
     = [9] \<and>
   find (\<lambda>c. truthy (snd c)) [(5::real, [])] = None \<and>
   ttfb_marks (effects (handleStreamingRequest 0 (js ''hi'')
      (Opens [(5, [])] (Throws 7 quota_error)) initial)) = [7] \<and>
   ttfb_marks (effects (handleStreamingRequest 0 (js ''hi'')
      (Opens [(5, [])] (Ends 7 8 (Inr full_sentence))) initial)) = [7] \<and>
   ttfb_marks (effects (handleStreamingRequest 0 (js ''hi'') (OpenFails 7 quota_error) initial))
     = [7] \<and>
   call_times (Opens [(5, [])] (Ends 7 8 (Inr full_sentence))) = [5, 7, 8] \<and>
   list_all (\<lambda>d. 0 \<le> d)
     (drop (length (ttfb_marks (effects initial)))
        (ttfb_marks (effects (handleStreamingRequest 0 (js ''hi'')
           (Opens [(5, [])] (Ends 7 8 (Inr full_sentence))) initial))))"
proof -
  have f: "find (\<lambda>c. truthy (snd c)) [(5::real, []), (9, js ''Per ''), (11, js ''our '')] =
     Some (9, js ''Per '')"
    "find (\<lambda>c. truthy (snd c)) [(5::real, [])] = None"
    by (simp_all add: truthy_def js_Nil_iff)
  have m: "\<forall>x \<in> set (call_times (Opens [(5, [])] (Ends 7 8 (Inr full_sentence)))). 0 \<le> x"
    by simp
  have i: "ttfb_marks (effects initial) = []" by (simp add: initial_def)
  note w1 = first_output_measured[OF trim_hi,
      where cs = "[(5, []), (9, js ''Per ''), (11, js ''our '')]" and start = 0 and s = initial
        and ending = "Throws 12 quota_error" and t = 7 and e = quota_error]
  note w2 = first_output_measured[OF trim_hi,
      where cs = "[(5, [])]" and start = 0 and s = initial and t = 7 and td = 8
        and e = quota_error and completion = full_sentence
        and call = "Opens [(5, [])] (Ends 7 8 (Inr full_sentence))"]
  from w1 f(1) have a: "ttfb_marks (effects (handleStreamingRequest 0 (js ''hi'')
      (Opens [(5, []), (9, js ''Per ''), (11, js ''our '')] (Throws 12 quota_error)) initial))
     = [9]"
    by (simp add: i truthy_def js_Nil_iff)
  from w2 f(2) m have b:
    "ttfb_marks (effects (handleStreamingRequest 0 (js ''hi'')
      (Opens [(5, [])] (Throws 7 quota_error)) initial)) = [7]"
    "ttfb_marks (effects (handleStreamingRequest 0 (js ''hi'')
      (Opens [(5, [])] (Ends 7 8 (Inr full_sentence))) initial)) = [7]"
    "ttfb_marks (effects (handleStreamingRequest 0 (js ''hi'') (OpenFails 7 quota_error) initial))
     = [7]"
    "\<forall>d \<in> set (drop (length (ttfb_marks (effects initial)))
               (ttfb_marks (effects (handleStreamingRequest 0 (js ''hi'')
                  (Opens [(5, [])] (Ends 7 8 (Inr full_sentence))) initial)))). 0 \<le> d"
    by (simp_all add: i truthy_def)
  have c: "call_times (Opens [(5, [])] (Ends 7 8 (Inr full_sentence))) = [5, 7, 8]"
    by simp
  from trim_hi f a b c show ?thesis by (simp add: list_all_iff)
qed

section \<open>The client: two calls in flight\<close>

lemmas segment_defs =
  ns_start_def ns_settle_def s_start_def s_opened_def s_chunk_def s_end_def s_finally_def
  s_data_def s_catch_def setLoading_def emit_def updateTimerDisplay_def Let_def

lemma loading_writes_append:
  "loading_writes (xs @ ys) = loading_writes xs @ loading_writes ys"
  by (induction xs rule: loading_writes.induct) simp_all

text \<open>A segment of one call leaves what belongs to the other call alone.\<close>

lemma ns_step_frame: "is_ns_event e \<Longrightarrow> s_view (step e s) = s_view s"
  by (cases e) (simp_all add: s_view_def segment_defs split: sum.splits option.splits)

lemma s_step_frame: "\<not> is_ns_event e \<Longrightarrow> ns_view (step e s) = ns_view s"
  by (cases e) (simp_all add: ns_view_def segment_defs split: sum.splits option.splits)

text \<open>What a segment does to its own call depends on that call's state only.\<close>

lemma ns_step_own:
  "is_ns_event e \<Longrightarrow> ns_view s = ns_view s' \<Longrightarrow> ns_view (step e s) = ns_view (step e s')"
  by (cases e) (simp_all add: ns_view_def segment_defs split: sum.splits option.splits)

lemma s_step_own:
  "\<not> is_ns_event e \<Longrightarrow> s_view s = s_view s' \<Longrightarrow> s_view (step e s) = s_view (step e s')"
  by (cases e) (simp_all add: s_view_def segment_defs split: sum.splits option.splits)

lemma ns_view_run:
  "ns_view s = ns_view s' \<Longrightarrow>
   ns_view (run evs s) = ns_view (run (filter is_ns_event evs) s')"
proof (induction evs arbitrary: s s')
  case Nil
  then show ?case by (simp add: run_def)
next
  case (Cons e evs)
  show ?case
  proof (cases "is_ns_event e")
    case True
    from ns_step_own[OF True Cons.prems] have "ns_view (step e s) = ns_view (step e s')" .
    from Cons.IH[OF this] True show ?thesis by (simp add: run_def)
  next
    case False
    from s_step_frame[OF False] Cons.prems have "ns_view (step e s) = ns_view s'" by simp
    from Cons.IH[OF this] False show ?thesis by (simp add: run_def)
  qed
qed

lemma s_view_run:
  "s_view s = s_view s' \<Longrightarrow>
   s_view (run evs s) = s_view (run (filter (\<lambda>e. \<not> is_ns_event e) evs) s')"
proof (induction evs arbitrary: s s')
  case Nil
  then show ?case by (simp add: run_def)
next
  case (Cons e evs)
  show ?case
  proof (cases "is_ns_event e")
    case False
    from s_step_own[OF False Cons.prems] have "s_view (step e s) = s_view (step e s')" .
    from Cons.IH[OF this] False show ?thesis by (simp add: run_def)
  next
    case True
    from ns_step_frame[OF True] Cons.prems have "s_view (step e s) = s_view s'" by simp
    from Cons.IH[OF this] True show ?thesis by (simp add: run_def)
  qed
qed

lemma ns_settle_loading:
  "loading_writes (effects (ns_settle t r s)) =
     loading_writes (effects s) @ (if streamingOpInProgress s then [] else [False])"
  by (simp add: segment_defs loading_writes_append split: sum.splits option.splits)

lemma s_finally_loading:
  "loading_writes (effects (s_finally s)) =
     loading_writes (effects s) @ (if nonStreamingOpInProgress s then [] else [False])"
  by (simp add: segment_defs loading_writes_append)

text \<open>The segments before the end of a streaming call leave the buttons alone.\<close>

lemma s_chunk_frame:
  "nonStreamingOpInProgress (s_chunk t p s) = nonStreamingOpInProgress s"
  "loading_writes (effects (s_chunk t p s)) = loading_writes (effects s)"
  by (simp_all add: segment_defs loading_writes_append split: option.splits)

lemma s_chunks_frame:
  "nonStreamingOpInProgress (s_chunks cs s) = nonStreamingOpInProgress s"
  "loading_writes (effects (s_chunks cs s)) = loading_writes (effects s)"
  by (induction cs s rule: s_chunks.induct) (simp_all add: s_chunk_frame)

lemma s_begin_frame:
  "truthy (trim p) \<Longrightarrow> nonStreamingOpInProgress (s_start t p s) = nonStreamingOpInProgress s"
  "truthy (trim p) \<Longrightarrow> loading_writes (effects (s_start t p s)) = loading_writes (effects s)"
  "truthy (trim p) \<Longrightarrow> streamingOpInProgress (s_start t p s)"
  "nonStreamingOpInProgress (s_opened s) = nonStreamingOpInProgress s"
  "loading_writes (effects (s_opened s)) = loading_writes (effects s)"
  "nonStreamingOpInProgress (s_end t s) = nonStreamingOpInProgress s"
  "loading_writes (effects (s_end t s)) = loading_writes (effects s)"
  by (simp_all add: segment_defs loading_writes_append split: option.splits)

lemma ns_begin_frame:
  "truthy (trim p) \<Longrightarrow> streamingOpInProgress (ns_start t p s) = streamingOpInProgress s"
  "truthy (trim p) \<Longrightarrow> loading_writes (effects (ns_start t p s)) = loading_writes (effects s)"
  "truthy (trim p) \<Longrightarrow> nonStreamingOpInProgress (ns_start t p s)"
  by (simp_all add: segment_defs loading_writes_append)

text \<open>Either end of a streaming call clears its flag and looks at the other flag.\<close>

lemma s_data_done:
  "streamingOpInProgress (s_data c s) = False \<and>
   nonStreamingOpInProgress (s_data c s) = nonStreamingOpInProgress s \<and>
   loading_writes (effects (s_data c s)) =
     loading_writes (effects s) @ (if nonStreamingOpInProgress s then [] else [False])"
  by (simp add: segment_defs loading_writes_append)

lemma s_catch_done:
  "streamingOpInProgress (s_catch t e s) = False \<and>
   nonStreamingOpInProgress (s_catch t e s) = nonStreamingOpInProgress s \<and>
   loading_writes (effects (s_catch t e s)) =
     loading_writes (effects s) @ (if nonStreamingOpInProgress s then [] else [False])"
  by (simp add: segment_defs loading_writes_append split: option.splits)

lemma ns_settle_done:
  "nonStreamingOpInProgress (ns_settle t r s) = False \<and>
   streamingOpInProgress (ns_settle t r s) = streamingOpInProgress s"
  by (simp add: segment_defs split: sum.splits option.splits)

lemma handleStreamingRequest_done:
  assumes "truthy (trim p)"
  shows "streamingOpInProgress (handleStreamingRequest start p call s) = False \<and>
   nonStreamingOpInProgress (handleStreamingRequest start p call s) =
     nonStreamingOpInProgress s \<and>
   loading_writes (effects (handleStreamingRequest start p call s)) =
     loading_writes (effects s) @ (if nonStreamingOpInProgress s then [] else [False])"
proof (cases call)
  case (OpenFails t e)
  then show ?thesis
    using assms by (simp add: handleStreamingRequest_def s_catch_done s_begin_frame)
next
  case (Opens cs ending)
  show ?thesis
  proof (cases ending)
    case (Throws t e)
    then show ?thesis
      using assms Opens
      by (simp add: handleStreamingRequest_def s_catch_done s_begin_frame s_chunks_frame)
  next
    case (Ends t td outcome)
    then show ?thesis
      using assms Opens
      by (cases outcome)
         (simp_all add: handleStreamingRequest_def s_catch_done s_data_done s_begin_frame
            s_chunks_frame)
  qed
qed

lemma handleNonStreamingRequest_done:
  assumes "truthy (trim p)"
  shows "nonStreamingOpInProgress (handleNonStreamingRequest start p call s) = False \<and>
   streamingOpInProgress (handleNonStreamingRequest start p call s) =
     streamingOpInProgress s \<and>
   loading_writes (effects (handleNonStreamingRequest start p call s)) =
     loading_writes (effects s) @ (if streamingOpInProgress s then [] else [False])"
  using assms
  by (simp add: handleNonStreamingRequest_def ns_settle_done ns_settle_loading ns_begin_frame)

text \<open>
  C8. A non-incremental and an incremental call in flight together do not touch
  each other's state: under any interleaving of their segments, the start time,
  the in-flight flag, the content and the displays of each call are what they
  would be had the other call's segments not run. Each call sets its own flag
  when it starts and clears it when it finishes, whichever way it finishes (the
  result arrives, or the call, the stream or the final promise fails), and leaves
  the other call's flag as it is; the buttons are re-enabled by a finishing call
  exactly when the other call's flag is clear.
\<close>

theorem calls_do_not_interfere:
  "ns_view (run evs s) = ns_view (run (filter is_ns_event evs) s) \<and>
   s_view (run evs s) = s_view (run (filter (\<lambda>e. \<not> is_ns_event e) evs) s) \<and>
   loading_writes (effects (ns_settle t r s)) =
     loading_writes (effects s) @ (if streamingOpInProgress s then [] else [False]) \<and>
   nonStreamingOpInProgress (ns_settle t r s) = False \<and>
   streamingOpInProgress (ns_settle t r s) = streamingOpInProgress s \<and>
   loading_writes (effects (s_finally s)) =
     loading_writes (effects s) @ (if nonStreamingOpInProgress s then [] else [False]) \<and>
   streamingOpInProgress (s_finally s) = False \<and>
   nonStreamingOpInProgress (s_finally s) = nonStreamingOpInProgress s \<and>
   streamingOpInProgress (s_data c s) = False \<and>
   nonStreamingOpInProgress (s_data c s) = nonStreamingOpInProgress s \<and>
   loading_writes (effects (s_data c s)) =
     loading_writes (effects s) @ (if nonStreamingOpInProgress s then [] else [False]) \<and>
   streamingOpInProgress (s_catch t e s) = False \<and>
   nonStreamingOpInProgress (s_catch t e s) = nonStreamingOpInProgress s \<and>
   loading_writes (effects (s_catch t e s)) =
     loading_writes (effects s) @ (if nonStreamingOpInProgress s then [] else [False]) \<and>
   (truthy (trim p) \<longrightarrow>
      nonStreamingOpInProgress (ns_start t p s) \<and>
      streamingOpInProgress (ns_start t p s) = streamingOpInProgress s \<and>
      streamingOpInProgress (s_start t p s) \<and>
      nonStreamingOpInProgress (s_start t p s) = nonStreamingOpInProgress s \<and>
      streamingOpInProgress (handleStreamingRequest t p scall s) = False \<and>
      nonStreamingOpInProgress (handleStreamingRequest t p scall s) =
        nonStreamingOpInProgress s \<and>
      loading_writes (effects (handleStreamingRequest t p scall s)) =
        loading_writes (effects s) @ (if nonStreamingOpInProgress s then [] else [False]) \<and>
      nonStreamingOpInProgress (handleNonStreamingRequest t p ncall s) = False \<and>
      streamingOpInProgress (handleNonStreamingRequest t p ncall s) =
        streamingOpInProgress s \<and>
      loading_writes (effects (handleNonStreamingRequest t p ncall s)) =
        loading_writes (effects s) @ (if streamingOpInProgress s then [] else [False]))"
proof -
  have "nonStreamingOpInProgress (ns_settle t r s) = False"
       "streamingOpInProgress (ns_settle t r s) = streamingOpInProgress s"
       "streamingOpInProgress (s_finally s) = False"
       "nonStreamingOpInProgress (s_finally s) = nonStreamingOpInProgress s"
    by (simp_all add: segment_defs split: sum.splits option.splits)
  with ns_view_run[OF refl, of evs s] s_view_run[OF refl, of evs s]
    ns_settle_loading[of t r s] s_finally_loading[of s]
    s_data_done[of c s] s_catch_done[of t e s]
    handleStreamingRequest_done[of p t scall s]
    handleNonStreamingRequest_done[of p t ncall s]
    s_begin_frame(1,3)[of p t s] ns_begin_frame(1,3)[of p t s]
  show ?thesis by simp
qed

theorem calls_do_not_interfere_witness:
  "ns_view (run [NsStart 0 (js ''The server is down.''), SStart 1 (js ''The server is down.''),
                 SOpened, SChunk 3 (js ''Per ''), NsSettle 7 (Inr full_sentence),
                 SChunk 8 (js ''our ''), SEnd 9, SData full_sentence]
              (setLoading True initial)) =
     (Some 0, False,
      [SetOutput NonStreaming (js ''Leveraging core competencies...''),
       SetTimer NonStreaming TimerBlank, SetTimer NonStreaming TimerMeasuring,
       Invoke (js ''The server is down.''),
       SetTimer NonStreaming (TimerValue 7), SetOutput NonStreaming full_sentence]) \<and>
   loading_writes (effects
     (run [NsStart 0 (js ''The server is down.''), SStart 1 (js ''The server is down.''),
           SOpened, SChunk 3 (js ''Per ''), NsSettle 7 (Inr full_sentence),
           SChunk 8 (js ''our ''), SEnd 9, SData full_sentence]
        (setLoading True initial))) = [True, False] \<and>
   truthy (trim (js ''The server is down.'')) \<and>
   nonStreamingOpInProgress (ns_start 0 (js ''The server is down.'') (setLoading True initial)) \<and>
   streamingOpInProgress
     (handleStreamingRequest 1 (js ''The server is down.'')
        (Opens [(3, js ''Per '')] (Throws 9 quota_error))
        (ns_start 0 (js ''The server is down.'') (setLoading True initial))) = False \<and>
   nonStreamingOpInProgress
     (handleStreamingRequest 1 (js ''The server is down.'')
        (Opens [(3, js ''Per '')] (Throws 9 quota_error))
        (ns_start 0 (js ''The server is down.'') (setLoading True initial))) \<and>
   loading_writes (effects
     (handleStreamingRequest 1 (js ''The server is down.'')
        (Opens [(3, js ''Per '')] (Throws 9 quota_error))
        (ns_start 0 (js ''The server is down.'') (setLoading True initial)))) = [True] \<and>
   loading_writes (effects
     (ns_settle 12 (Inr full_sentence)
        (handleStreamingRequest 1 (js ''The server is down.'')
           (Opens [(3, js ''Per '')] (Throws 9 quota_error))
           (ns_start 0 (js ''The server is down.'') (setLoading True initial))))) =
     [True, False]"
proof -
  have n: "truthy (trim (js ''The server is down.''))"
    by (simp add: trim_server_down truthy_def js_Nil_iff)
  have t: "truthy (js ''Per '')" "truthy (js ''our '')"
    by (simp_all add: truthy_def js_Nil_iff)
  let ?p = "js ''The server is down.''"
  let ?evs = "[NsStart 0 ?p, SStart 1 ?p,
                 SOpened, SChunk 3 (js ''Per ''), NsSettle 7 (Inr full_sentence),
                 SChunk 8 (js ''our ''), SEnd 9, SData full_sentence]"
  let ?s0 = "setLoading True initial"
  let ?s1 = "ns_start 0 ?p ?s0"
  let ?s2 = "handleStreamingRequest 1 ?p (Opens [(3, js ''Per '')] (Throws 9 quota_error)) ?s1"
  have a: "ns_view (run [NsStart 0 ?p, NsSettle 7 (Inr full_sentence)] ?s0) =
     (Some 0, False,
      [SetOutput NonStreaming (js ''Leveraging core competencies...''),
       SetTimer NonStreaming TimerBlank, SetTimer NonStreaming TimerMeasuring,
       Invoke ?p,
       SetTimer NonStreaming (TimerValue 7), SetOutput NonStreaming full_sentence])"
    by (simp add: run_def ns_view_def n ns_start_def ns_settle_def setLoading_def emit_def
          updateTimerDisplay_def initial_def)
  have b: "loading_writes (effects (run ?evs ?s0)) = [True, False]"
    by (simp add: run_def n t segment_defs initial_def)
  have c: "loading_writes (effects ?s0) = [True]" "\<not> nonStreamingOpInProgress ?s0"
    by (simp_all add: setLoading_def emit_def initial_def)
  note i0 = calls_do_not_interfere[of ?evs ?s0 0 "Inr full_sentence" full_sentence
      quota_error ?p]
  note i1 = calls_do_not_interfere[where s = ?s1 and p = ?p and t = 1
      and scall = "Opens [(3, js ''Per '')] (Throws 9 quota_error)"]
  note i2 = calls_do_not_interfere[where s = ?s2 and t = 12 and r = "Inr full_sentence"]
  from i0 n c have s1: "nonStreamingOpInProgress ?s1" "loading_writes (effects ?s1) = [True]"
    by (simp_all add: ns_begin_frame)
  from i1 n s1 have s2: "streamingOpInProgress ?s2 = False" "nonStreamingOpInProgress ?s2"
    "loading_writes (effects ?s2) = [True]"
    by simp_all
  from i2 s2 have s3: "loading_writes (effects (ns_settle 12 (Inr full_sentence) ?s2)) =
     [True, False]"
    by simp
  from i0 a b n s1 s2 s3 show ?thesis by simp
qed

end
